theory Spec2Isabelle
  imports Complex_Main "HOL-Library.Multiset" "HOL-Library.Sublist"
begin

section \<open>gs-optimize: the optimize-and-compare pipeline\<close>

text \<open>
  A shallow embedding of \<^verbatim>\<open>gs-optimize.py\<close>. Python integers are \<^typ>\<open>int\<close>,
  strings are \<^typ>\<open>string\<close>. A float of the source (floats arise from the true
  division \<^verbatim>\<open>/\<close>) is the rational number it stands for, and every float operation
  rounds its exact result to 53 significant bits, ties to even, as binary64 arithmetic
  does. \<^verbatim>\<open>:.2f\<close> rounds the exact value of the float to the nearest hundredth
  (ties to even), which is what the correctly rounded float formatting of CPython does.
  The exponent range of a float is not modelled: where a result would be \<open>2 ^ 1024\<close>
  or more, Python raises \<^verbatim>\<open>OverflowError\<close>; a size is a file size or a sum of
  file sizes, and stays far below that.
\<close>

subsection \<open>Strings and floats\<close>

definition startswith :: "string \<Rightarrow> string \<Rightarrow> bool" where
  \<comment> \<open>\<^verbatim>\<open>s.startswith(pre)\<close>\<close>
  "startswith s pre = (take (length pre) s = pre)"

definition endswith :: "string \<Rightarrow> string \<Rightarrow> bool" where
  \<comment> \<open>\<^verbatim>\<open>s.endswith(suf)\<close>\<close>
  "endswith s suf = (length suf \<le> length s \<and> drop (length s - length suf) s = suf)"

fun join_str :: "string \<Rightarrow> string list \<Rightarrow> string" where
  \<comment> \<open>\<^verbatim>\<open>sep.join(xs)\<close>\<close>
  "join_str sep [] = []"
| "join_str sep [x] = x"
| "join_str sep (x # y # ys) = x @ sep @ join_str sep (y # ys)"

definition digit :: "nat \<Rightarrow> char" where
  "digit d = ''0123456789'' ! d"

fun show_nat :: "nat \<Rightarrow> string" where
  \<comment> \<open>the decimal numeral of a natural number\<close>
  "show_nat n = (if n < 10 then [digit n] else show_nat (n div 10) @ [digit (n mod 10)])"

declare show_nat.simps [simp del]

definition round_half_even :: "rat \<Rightarrow> int" where
  "round_half_even x =
     (let f = \<lfloor>x\<rfloor>; r = x - of_int f
      in if r < 1 / 2 then f
         else if 1 / 2 < r then f + 1
         else if even f then f else f + 1)"

fun ilog2 :: "nat \<Rightarrow> nat" where
  \<comment> \<open>the position of the leading bit: \<open>2 ^ ilog2 n \<le> n < 2 ^ (ilog2 n + 1)\<close>\<close>
  "ilog2 n = (if n < 2 then 0 else Suc (ilog2 (n div 2)))"

declare ilog2.simps [simp del]

definition exponent :: "rat \<Rightarrow> int" where
  \<comment> \<open>the binary exponent \<open>e\<close> of a number that is not 0:
      \<open>2 powi e \<le> \<bar>x\<bar> < 2 powi (e + 1)\<close>\<close>
  "exponent x =
     (if 1 \<le> \<bar>x\<bar> then int (ilog2 (nat \<lfloor>\<bar>x\<bar>\<rfloor>))
      else - int (ilog2 (nat (\<lceil>1 / \<bar>x\<bar>\<rceil> - 1))) - 1)"

definition fl :: "rat \<Rightarrow> rat" where
  \<comment> \<open>the float nearest to a number: 53 significant bits, ties to even. It is the
      result of converting an integer to a float, and of a float operation whose exact
      result is the argument.\<close>
  "fl x =
     (if x = 0 then 0
      else (let ulp = 2 powi (exponent x - 52)
            in of_int (round_half_even (x / ulp)) * ulp))"

definition fmt2 :: "rat \<Rightarrow> string" where
  \<comment> \<open>\<^verbatim>\<open>f"{x:.2f}"\<close> on a float: sign, integer part, point, two decimals\<close>
  "fmt2 x =
     (let n = nat (round_half_even (\<bar>x\<bar> * 100))
      in (if x < 0 then ''-'' else '''')
         @ show_nat (n div 100) @ ''.'' @ [digit (n mod 100 div 10), digit (n mod 10)])"

definition py_str :: "string option \<Rightarrow> string" where
  \<comment> \<open>how an f-string renders a value that is a string or \<^verbatim>\<open>None\<close>\<close>
  "py_str v = (case v of None \<Rightarrow> ''None'' | Some s \<Rightarrow> s)"

subsection \<open>Size formatting\<close>

definition units :: "string list" where
  "units = [''bytes'', ''KB'', ''MB'', ''GB'', ''TB'']"

fun convert_loop :: "rat \<Rightarrow> string list \<Rightarrow> string option" where
  \<comment> \<open>the \<^verbatim>\<open>for unit in [...]\<close> loop of \<^verbatim>\<open>convert_from_bytes\<close>; falling off
      the end of the loop returns \<^verbatim>\<open>None\<close>. \<open>b\<close> is the value of \<^verbatim>\<open>bytes\<close>: the
      integer argument at first, a float after \<^verbatim>\<open>bytes /= 1000\<close>, whose result is
      the correctly rounded quotient. \<^verbatim>\<open>:.2f\<close> converts an integer to a float
      before it formats it (on a float, \<open>fl\<close> changes nothing).\<close>
  "convert_loop b [] = None"
| "convert_loop b (unit # rest) =
     (if b < 1000 then Some (fmt2 (fl b) @ '' '' @ unit)
      else convert_loop (fl (b / 1000)) rest)"

definition convert_from_bytes :: "int \<Rightarrow> string option" where
  "convert_from_bytes bytes = convert_loop (of_int bytes) units"

subsection \<open>The world: files, processes and output\<close>

text \<open>
  A file system maps a path to the bytes stored there. Every observable action of the
  program is appended to a trace, in the order in which it happens.
\<close>

datatype event =
    Stat string              \<comment> \<open>\<^verbatim>\<open>os.path.getsize(p)\<close>\<close>
  | Spawn string             \<comment> \<open>\<^verbatim>\<open>subprocess.Popen(cmd, ...)\<close>\<close>
  | Wait nat                 \<comment> \<open>\<^verbatim>\<open>process.wait(t)\<close>\<close>
  | Terminate                \<comment> \<open>\<^verbatim>\<open>process.terminate()\<close>\<close>
  | Remove string            \<comment> \<open>\<^verbatim>\<open>os.remove(p)\<close>\<close>
  | Rename string string     \<comment> \<open>\<^verbatim>\<open>os.rename(a, b)\<close>\<close>
  | ListDir string           \<comment> \<open>\<^verbatim>\<open>os.listdir(d)\<close>\<close>
  | Print string             \<comment> \<open>text written to standard output\<close>

datatype error =
    SystemExit string        \<comment> \<open>\<^verbatim>\<open>sys.exit(msg)\<close>\<close>
  | FileNotFoundError string
  | FileExistsError string
  | SpawnError
  | ZeroDivisionError

record world =
  files :: "string \<Rightarrow> string option"
  trace :: "event list"

definition log :: "event \<Rightarrow> world \<Rightarrow> world" where
  "log e w = w\<lparr>trace := trace w @ [e]\<rparr>"

definition getsize :: "string \<Rightarrow> world \<Rightarrow> (error + int) \<times> world" where
  "getsize p w =
     (case files w p of
        None \<Rightarrow> (Inl (FileNotFoundError p), log (Stat p) w)
      | Some c \<Rightarrow> (Inr (int (length c)), log (Stat p) w))"

definition remove_file :: "string \<Rightarrow> world \<Rightarrow> (error + unit) \<times> world" where
  \<comment> \<open>\<^verbatim>\<open>os.remove\<close>\<close>
  "remove_file p w =
     (case files w p of
        None \<Rightarrow> (Inl (FileNotFoundError p), log (Remove p) w)
      | Some c \<Rightarrow> (Inr (), log (Remove p) (w\<lparr>files := (files w)(p := None)\<rparr>)))"

definition rename_file :: "string \<Rightarrow> string \<Rightarrow> world \<Rightarrow> (error + unit) \<times> world" where
  \<comment> \<open>\<^verbatim>\<open>os.rename\<close> as on Windows: it does not replace an existing destination\<close>
  "rename_file a b w =
     (case files w a of
        None \<Rightarrow> (Inl (FileNotFoundError a), log (Rename a b) w)
      | Some c \<Rightarrow>
          if a \<noteq> b \<and> files w b \<noteq> None then (Inl (FileExistsError b), log (Rename a b) w)
          else (Inr (), log (Rename a b) (w\<lparr>files := (files w)(a := None, b := Some c)\<rparr>)))"

definition clear_print :: "string \<Rightarrow> bool \<Rightarrow> world \<Rightarrow> world" where
  "clear_print content nxt w =
     log (Print ([CHR 0x1B] @ ''[1K'' @ [CHR 0x0D] @ content
                 @ (if \<not> nxt then [] else [CHR 0x0A]))) w"

text \<open>
  The external compressor is not part of the program. One run of it is described by
  what the program can observe: whether it could be started, the exit status it reaches
  within the waiting time (\<open>None\<close>: it is still running when the wait ends), and the
  bytes it has put at its output path by the time the program looks (\<open>None\<close>: it wrote
  no file there). It writes nowhere else.
\<close>

record tool_run =
  starts :: bool
  exit_status :: "int option"
  written :: "string option"

record process =
  run :: tool_run
  target :: string
  returncode :: "int option"

definition GS_ARGS :: "string list" where
  "GS_ARGS =
    [''gswin64.exe'',
     ''-sDEVICE=pdfwrite'',
     ''-dCompatibilityLevel=1.5'',
     ''-dNOPAUSE'',
     ''-dQUIET'',
     ''-dBATCH'',
     ''-dPrinted=false'',
     ''-dSubsetFonts=true'',
     ''-dCompressFonts=true'',
     ''-dEmbedAllFonts=true'',
     ''-dDetectDuplicateImages=true'',
     ''-dColorImageDownsampleType=/Bicubic'',
     ''-dColorImageResolution=300'',
     ''-dGrayImageDownsampleType=/Bicubic'',
     ''-dGrayImageResolution=300'',
     ''-dMonoImageDownsampleType=/Bicubic'',
     ''-dMonoImageResolution=300'',
     ''-dDownsampleColorImages=true'',
     ''-sProcessColorModel=DeviceRGB'',
     ''-sColorConversionStrategy=RGB'',
     ''-sColorConversionStrategyForImages=RGB'',
     ''-dConvertCMYKImagesToRGB=true'',
     ''-sOutputFile='']"

definition dq :: char where
  \<comment> \<open>the double quote character\<close>
  "dq = CHR 0x22"

definition GS :: string where
  "GS = join_str '' '' GS_ARGS"

definition launch_minimized_process ::
  "tool_run \<Rightarrow> string \<Rightarrow> string \<Rightarrow> world \<Rightarrow> (error + process) \<times> world" where
  \<comment> \<open>the second path argument is the output file named inside \<open>cmd\<close>\<close>
  "launch_minimized_process r cmd out w =
     (if starts r then (Inr \<lparr>run = r, target = out, returncode = None\<rparr>, log (Spawn cmd) w)
      else (Inl SpawnError, log (Spawn cmd) w))"

definition deliver :: "process \<Rightarrow> world \<Rightarrow> world" where
  \<comment> \<open>what the tool has written becomes visible in the file system\<close>
  "deliver pr w =
     (case written (run pr) of
        None \<Rightarrow> w
      | Some c \<Rightarrow> w\<lparr>files := (files w)(target pr := Some c)\<rparr>)"

definition wait_or_terminate :: "process \<Rightarrow> nat \<Rightarrow> world \<Rightarrow> process \<times> world" where
  \<comment> \<open>\<^verbatim>\<open>try: process.wait(t)  except TimeoutExpired: process.terminate()\<close>.
      A process that was terminated has not been waited for again: its
      \<^verbatim>\<open>returncode\<close> is still \<^verbatim>\<open>None\<close>.\<close>
  "wait_or_terminate pr t w =
     (case exit_status (run pr) of
        Some rc \<Rightarrow> (pr\<lparr>returncode := Some rc\<rparr>, log (Wait t) (deliver pr w))
      | None \<Rightarrow> (pr, log Terminate (log (Wait t) (deliver pr w))))"

subsection \<open>Temporary names\<close>

definition unique_filename :: "string \<Rightarrow> string \<Rightarrow> string \<Rightarrow> string" where
  \<comment> \<open>\<^verbatim>\<open>f"{prefix} {uuid4().hex} .{ext}"\<close>; the last argument is the value of
      \<^verbatim>\<open>uuid4().hex\<close>\<close>
  "unique_filename ext pre hex = pre @ '' '' @ hex @ '' .'' @ ext"

text \<open>
  The functions of \<^verbatim>\<open>os.path\<close> belong to the platform, not to the program: they
  are parameters of the model.
\<close>

record os_path =
  basename :: "string \<Rightarrow> string"
  dirname :: "string \<Rightarrow> string"
  join :: "string \<Rightarrow> string \<Rightarrow> string"

record job_env =
  uuid_hex :: string         \<comment> \<open>the value \<^verbatim>\<open>uuid4().hex\<close> takes in this job\<close>
  tool :: tool_run           \<comment> \<open>how the compressor behaves in this job\<close>

definition output_path :: "os_path \<Rightarrow> string \<Rightarrow> string \<Rightarrow> string" where
  \<comment> \<open>\<^verbatim>\<open>os.path.join(source_file_dir, unique_filename("pdf", "temp_"))\<close>\<close>
  "output_path os hex source_file_path =
     join os (dirname os source_file_path) (unique_filename ''pdf'' ''temp_'' hex)"

subsection \<open>The single-file optimizer\<close>

type_synonym job_result = "(int \<times> int) option"

definition optimize_file ::
  "os_path \<Rightarrow> job_env \<Rightarrow> string \<Rightarrow> bool \<Rightarrow> world \<Rightarrow> (error + job_result) \<times> world" where
  "optimize_file os env source_file_path verbose w =
     (if \<not> endswith source_file_path ''.pdf'' then (Inl (SystemExit ''Not a PDF file.''), w)
      else
       (let source_file_name = basename os source_file_path in
       (case getsize source_file_path w of
          (Inl e, w1) \<Rightarrow> (Inl e, w1)
        | (Inr source_file_size, w1) \<Rightarrow>
       (let output_file_path = output_path os (uuid_hex env) source_file_path in
       (case launch_minimized_process (tool env)
               (GS @ [dq] @ output_file_path @ [dq] @ '' '' @ [dq] @ source_file_path @ [dq])
               output_file_path w1 of
          (Inl e, w2) \<Rightarrow> (Inl e, w2)
        | (Inr pr, w2) \<Rightarrow>
       (let w3 = clear_print (''Optimizing '' @ source_file_name @ ''...'') False w2 in
       (case wait_or_terminate pr 60 w3 of
          (pr', w4) \<Rightarrow>
       (if \<not> (returncode pr' = Some 0) then (Inr None, w4)
        else
       (case getsize output_file_path w4 of
          (Inl e, w5) \<Rightarrow> (Inl e, w5)
        | (Inr output_file_size, w5) \<Rightarrow>
       (if output_file_size < source_file_size then
          (case remove_file source_file_path w5 of
             (Inl e, w6) \<Rightarrow> (Inl e, w6)
           | (Inr u, w6) \<Rightarrow>
          (case rename_file output_file_path source_file_path w6 of
             (Inl e, w7) \<Rightarrow> (Inl e, w7)
           | (Inr u', w7) \<Rightarrow>
          (let w8 = (if verbose then
                       clear_print (source_file_name @ '': ''
                                    @ py_str (convert_from_bytes source_file_size) @ '' ->''
                                    @ '' '' @ py_str (convert_from_bytes output_file_size)) True w7
                     else w7)
           in (Inr (Some (source_file_size, output_file_size)), w8))))
        else
          (let w6 = (if verbose then
                       clear_print (source_file_name @ '': no optimization needed'') True w5
                     else w5)
           in (case remove_file output_file_path w6 of
                 (Inl e, w7) \<Rightarrow> (Inl e, w7)
               | (Inr u, w7) \<Rightarrow> (Inr None, w7)))))))))))))"

subsection \<open>The batch driver\<close>

text \<open>
  The worker pool is modelled by running the submitted jobs one after the other, in
  the order of submission; each job works on its own source and temporary file. The
  order in which \<^verbatim>\<open>as_completed\<close> hands the futures back is not determined by the
  program: it is the parameter \<open>completed\<close>, some rearrangement of the futures.
  A future holds what its job returned or the exception it raised, and
  \<^verbatim>\<open>future.result()\<close> raises that exception again.
\<close>

type_synonym future = "error + job_result"

fun submit_all ::
  "os_path \<Rightarrow> (string \<Rightarrow> job_env) \<Rightarrow> string \<Rightarrow> bool \<Rightarrow> string list \<Rightarrow> world
     \<Rightarrow> future list \<times> world" where
  \<comment> \<open>the loop over \<^verbatim>\<open>os.listdir(source_folder_path)\<close>\<close>
  "submit_all os envs source_folder_path verbose [] w = ([], w)"
| "submit_all os envs source_folder_path verbose (file # rest) w =
     (if \<not> startswith file ''temp_'' \<and> endswith file ''.pdf'' then
        (let file_path = join os source_folder_path file in
         (case optimize_file os (envs file_path) file_path verbose w of
            (r, w1) \<Rightarrow>
         (case submit_all os envs source_folder_path verbose rest w1 of
            (rs, w2) \<Rightarrow> (r # rs, w2))))
      else submit_all os envs source_folder_path verbose rest w)"

fun collect :: "future list \<Rightarrow> int \<times> int \<Rightarrow> error + int \<times> int" where
  \<comment> \<open>the loop over \<^verbatim>\<open>as_completed(futures)\<close>; the pair is
      \<^verbatim>\<open>(total_initial_size, total_final_size)\<close>\<close>
  "collect [] totals = Inr totals"
| "collect (Inl e # fs) totals = Inl e"
| "collect (Inr None # fs) totals = collect fs totals"
| "collect (Inr (Some (initial, final)) # fs) (total_initial_size, total_final_size) =
     collect fs (total_initial_size + initial, total_final_size + final)"

definition true_div :: "int \<Rightarrow> int \<Rightarrow> error + rat" where
  \<comment> \<open>Python's \<^verbatim>\<open>a / b\<close> on integers: the float nearest to the quotient\<close>
  "true_div a b = (if b = 0 then Inl ZeroDivisionError else Inr (fl (of_int a / of_int b)))"

definition summary_line :: "int \<Rightarrow> int \<Rightarrow> error + string" where
  \<comment> \<open>the f-string of the final summary; its parts are evaluated from left to right.
      The ratio \<^verbatim>\<open>100 * (1 - total_final_size / total_initial_size)\<close> is three float
      operations: the division, the subtraction and the multiplication, each rounded.\<close>
  "summary_line total_initial_size total_final_size =
     (let a = py_str (convert_from_bytes total_initial_size);
          b = py_str (convert_from_bytes total_final_size)
      in (case true_div total_final_size total_initial_size of
            Inl e \<Rightarrow> Inl e
          | Inr q \<Rightarrow>
              Inr (a @ '' ->'' @ '' '' @ b @ '','' @ '' Compression ratio = ''
                   @ fmt2 (fl (100 * fl (1 - q))) @ ''%'')))"

definition optimize_folder ::
  "os_path \<Rightarrow> (string \<Rightarrow> string list) \<Rightarrow> (string \<Rightarrow> job_env) \<Rightarrow> (future list \<Rightarrow> future list)
     \<Rightarrow> string \<Rightarrow> bool \<Rightarrow> world \<Rightarrow> (error + unit) \<times> world" where
  "optimize_folder os listdir envs completed source_folder_path verbose w =
     (case submit_all os envs source_folder_path verbose (listdir source_folder_path)
             (log (ListDir source_folder_path) w) of
        (futures, w1) \<Rightarrow>
     (case collect (completed futures) (0, 0) of
        Inl e \<Rightarrow> (Inl e, w1)
      | Inr (total_initial_size, total_final_size) \<Rightarrow>
     (let w2 = clear_print ''Final compression stats:'' True w1 in
      (case summary_line total_initial_size total_final_size of
         Inl e \<Rightarrow> (Inl e, w2)
       | Inr line \<Rightarrow> (Inr (), clear_print line True w2)))))"

subsection \<open>The command line\<close>

record cli_env =
  cli_paths :: os_path
  cli_listdir :: "string \<Rightarrow> string list"
  cli_isdir :: "string \<Rightarrow> bool"
  cli_getcwd :: string
  cli_envs :: "string \<Rightarrow> job_env"
  cli_completed :: "future list \<Rightarrow> future list"

definition isfile :: "string \<Rightarrow> world \<Rightarrow> bool" where
  "isfile p w = (files w p \<noteq> None)"

fun main_loop :: "cli_env \<Rightarrow> bool \<Rightarrow> string list \<Rightarrow> world \<Rightarrow> (error + unit) \<times> world" where
  \<comment> \<open>\<^verbatim>\<open>for item in args.src\<close>\<close>
  "main_loop c verbose [] w = (Inr (), w)"
| "main_loop c verbose (item # rest) w =
     (if item = ''.'' then
        (case optimize_file (cli_paths c) (cli_envs c (cli_getcwd c)) (cli_getcwd c) verbose w of
           (Inl e, w1) \<Rightarrow> (Inl e, w1)
         | (Inr r, w1) \<Rightarrow> main_loop c verbose rest w1)
      else if cli_isdir c item then
        (case optimize_folder (cli_paths c) (cli_listdir c) (cli_envs c) (cli_completed c) item verbose w of
           (Inl e, w1) \<Rightarrow> (Inl e, w1)
         | (Inr u, w1) \<Rightarrow> main_loop c verbose rest w1)
      else if isfile item w then
        (case optimize_file (cli_paths c) (cli_envs c item) item True w of
           (Inl e, w1) \<Rightarrow> (Inl e, w1)
         | (Inr r, w1) \<Rightarrow> main_loop c verbose rest w1)
      else (Inl (SystemExit ''Not a valid path to PDF or folder containing PDFs.''), w))"

definition exit_code :: "error + unit \<Rightarrow> int" where
  \<comment> \<open>the status of the interpreter: 0 when the script runs to its end, 1 when
      \<^verbatim>\<open>sys.exit\<close> was given a message or an exception was not caught\<close>
  "exit_code r = (case r of Inr u \<Rightarrow> 0 | Inl e \<Rightarrow> 1)"

definition stderr_text :: "error + unit \<Rightarrow> string option" where
  \<comment> \<open>the message \<^verbatim>\<open>sys.exit(msg)\<close> leaves on the error stream\<close>
  "stderr_text r = (case r of Inl (SystemExit msg) \<Rightarrow> Some msg | _ \<Rightarrow> None)"

subsection \<open>Auxiliary notions for the statements\<close>

fun run_jobs ::
  "os_path \<Rightarrow> (string \<Rightarrow> job_env) \<Rightarrow> bool \<Rightarrow> string list \<Rightarrow> world \<Rightarrow> future list \<times> world" where
  \<comment> \<open>one job of the single-file optimizer for each path of a list, in the order of the
      list; used to say which jobs the batch driver submits\<close>
  "run_jobs os envs verbose [] w = ([], w)"
| "run_jobs os envs verbose (file_path # rest) w =
     (case optimize_file os (envs file_path) file_path verbose w of
        (r, w1) \<Rightarrow>
     (case run_jobs os envs verbose rest w1 of
        (rs, w2) \<Rightarrow> (r # rs, w2)))"

fun divided :: "rat \<Rightarrow> nat \<Rightarrow> rat" where
  \<comment> \<open>the value of \<^verbatim>\<open>bytes\<close> after \<open>i\<close> rounds of \<^verbatim>\<open>bytes /= 1000\<close>: the value
      in the unit number \<open>i\<close>; used to say which unit the formatter selects\<close>
  "divided b 0 = b"
| "divided b (Suc i) = divided (fl (b / 1000)) i"

subsection \<open>Sample inputs\<close>

definition is_sep :: "char \<Rightarrow> bool" where
  "is_sep ch = (ch = CHR ''/'' \<or> ch = CHR 0x5C)"

definition sample_paths :: os_path where
  \<comment> \<open>path functions that agree with those of Windows on relative paths without a
      drive\<close>
  "sample_paths =
     \<lparr>basename = (\<lambda>p. rev (takeWhile (\<lambda>ch. \<not> is_sep ch) (rev p))),
      dirname = (\<lambda>p. rev (dropWhile is_sep (dropWhile (\<lambda>ch. \<not> is_sep ch) (rev p)))),
      join = (\<lambda>d f. if d = [] then f else if is_sep (last d) then d @ f
                     else d @ [CHR 0x5C] @ f)\<rparr>"

definition sample_hex :: string where
  "sample_hex = ''9f1c2b7a4d3e4f60a1b2c3d4e5f60718''"

definition tool_exits :: "int \<Rightarrow> string option \<Rightarrow> tool_run" where
  "tool_exits rc out = \<lparr>starts = True, exit_status = Some rc, written = out\<rparr>"

definition tool_hangs :: "string option \<Rightarrow> tool_run" where
  "tool_hangs out = \<lparr>starts = True, exit_status = None, written = out\<rparr>"

definition sample_world :: world where
  \<comment> \<open>one PDF of ten bytes\<close>
  "sample_world = \<lparr>files = [''docs/a.pdf'' \<mapsto> ''0123456789''], trace = []\<rparr>"

definition sample_job :: "tool_run \<Rightarrow> job_env" where
  "sample_job t = \<lparr>uuid_hex = sample_hex, tool = t\<rparr>"

definition sample_temp :: string where
  \<comment> \<open>the temporary path of the job on \<^verbatim>\<open>docs/a.pdf\<close>\<close>
  "sample_temp = ''docs'' @ [CHR 0x5C] @ ''temp_ 9f1c2b7a4d3e4f60a1b2c3d4e5f60718 .pdf''"

definition scenario_world :: world where
  \<comment> \<open>a folder with three PDFs of 100000, 200000 and 50000 bytes\<close>
  "scenario_world =
     \<lparr>files = [''docs/a.pdf'' \<mapsto> replicate 100000 (CHR ''a''),
               ''docs/b.pdf'' \<mapsto> replicate 200000 (CHR ''b''),
               ''docs/c.pdf'' \<mapsto> replicate 50000 (CHR ''c'')],
      trace = []\<rparr>"

definition scenario_listdir :: "string \<Rightarrow> string list" where
  "scenario_listdir d = (if d = ''docs/'' then [''a.pdf'', ''b.pdf'', ''c.pdf''] else [])"

definition scenario_envs :: "string \<Rightarrow> job_env" where
  \<comment> \<open>the compressor brings the three files to 40000, 150000 and 50000 bytes\<close>
  "scenario_envs p =
     (if p = ''docs/a.pdf'' then
        \<lparr>uuid_hex = ''00000000000000000000000000000001'',
         tool = tool_exits 0 (Some (replicate 40000 (CHR ''a'')))\<rparr>
      else if p = ''docs/b.pdf'' then
        \<lparr>uuid_hex = ''00000000000000000000000000000002'',
         tool = tool_exits 0 (Some (replicate 150000 (CHR ''b'')))\<rparr>
      else
        \<lparr>uuid_hex = ''00000000000000000000000000000003'',
         tool = tool_exits 0 (Some (replicate 50000 (CHR ''c'')))\<rparr>)"

definition stale_listdir :: "string \<Rightarrow> string list" where
  \<comment> \<open>a folder with a left-over temporary file, a text file and one PDF\<close>
  "stale_listdir d = [''temp_ 9f1c2b7a4d3e4f60a1b2c3d4e5f60718 .pdf'', ''notes.txt'', ''a.pdf'']"

definition sample_cli :: cli_env where
  "sample_cli =
     \<lparr>cli_paths = sample_paths,
      cli_listdir = scenario_listdir,
      cli_isdir = (\<lambda>p. p = ''docs/''),
      cli_getcwd = ''work'',
      cli_envs = (\<lambda>p. sample_job (tool_exits 0 (Some ''01234''))),
      cli_completed = rev\<rparr>"

section \<open>Properties\<close>

subsection \<open>Strings\<close>

lemma endswith_iff_suffix: "endswith s suf \<longleftrightarrow> suffix suf s"
proof
  assume "endswith s suf"
  then have "s = take (length s - length suf) s @ suf"
    by (metis append_take_drop_id endswith_def)
  then show "suffix suf s" by (metis suffixI)
next
  assume "suffix suf s"
  then obtain pre where "s = pre @ suf" by (auto simp: suffix_def)
  then show "endswith s suf" by (simp add: endswith_def)
qed

lemma startswith_iff_prefix: "startswith s pre \<longleftrightarrow> prefix pre s"
  by (metis startswith_def append_eq_conv_conj prefix_def append_take_drop_id)

subsection \<open>Rounding to a float\<close>

lemma floor_rat_numeral: "\<lfloor>(numeral a :: rat) / numeral b\<rfloor> = numeral a div numeral b"
  by (metis floor_divide_of_int_eq of_int_numeral)

lemma floor_rat_neg_numeral:
  "\<lfloor>- ((numeral a :: rat) / numeral b)\<rfloor> = - numeral a div numeral b"
  by (metis floor_divide_of_int_eq of_int_numeral of_int_minus minus_divide_left)

lemma ceiling_rat_numeral:
  "\<lceil>(numeral a :: rat) / numeral b\<rceil> = - (- numeral a div numeral b)"
  by (simp add: ceiling_def floor_rat_neg_numeral)

lemmas fl_eval = fl_def exponent_def ilog2.simps Let_def round_half_even_def
  floor_rat_numeral floor_rat_neg_numeral ceiling_rat_numeral

lemma ilog2_bounds: "0 < n \<Longrightarrow> 2 ^ ilog2 n \<le> n \<and> n < 2 ^ Suc (ilog2 n)"
proof (induction n rule: ilog2.induct)
  case (1 n)
  show ?case
  proof (cases "n < 2")
    case True
    with "1.prems" have "n = 1" by simp
    then show ?thesis by (simp add: ilog2.simps)
  next
    case False
    then have pos: "0 < n div 2" by simp
    from "1.IH" [OF False pos]
    have ih: "2 ^ ilog2 (n div 2) \<le> n div 2" "n div 2 < 2 ^ Suc (ilog2 (n div 2))" by simp_all
    have eq: "ilog2 n = Suc (ilog2 (n div 2))" using False by (simp add: ilog2.simps)
    from ih(1) have "2 * 2 ^ ilog2 (n div 2) \<le> n" by linarith
    moreover from ih(2) have "n < 2 * 2 ^ Suc (ilog2 (n div 2))" by linarith
    ultimately show ?thesis by (simp add: eq)
  qed
qed

lemma exponent_bounds:
  assumes "x \<noteq> 0"
  shows "2 powi exponent x \<le> \<bar>x\<bar>" and "\<bar>x\<bar> < 2 powi (exponent x + 1)"
proof -
  define a where "a = \<bar>x\<bar>"
  have apos: "0 < a" using assms by (simp add: a_def)
  have "2 powi exponent x \<le> a \<and> a < 2 powi (exponent x + 1)"
  proof (cases "1 \<le> a")
    case True
    define n where "n = nat \<lfloor>a\<rfloor>"
    have n1: "0 < n" using True by (simp add: n_def)
    have e: "exponent x = int (ilog2 n)" using True by (simp add: exponent_def a_def n_def)
    from ilog2_bounds [OF n1] have b: "2 ^ ilog2 n \<le> n" "n < 2 ^ Suc (ilog2 n)" by simp_all
    have fl_n: "\<lfloor>a\<rfloor> = int n" using True by (simp add: n_def)
    have "(2::rat) ^ ilog2 n = of_int (2 ^ ilog2 n)" by simp
    also have "\<dots> \<le> of_int (int n)" using b(1) by (metis of_int_le_iff of_nat_le_iff of_nat_numeral of_nat_power)
    also have "\<dots> \<le> a" using fl_n by (metis of_int_floor_le)
    finally have lo: "(2::rat) ^ ilog2 n \<le> a" .
    have "a < of_int (\<lfloor>a\<rfloor> + 1)" by (rule floor_correct [THEN conjunct2])
    also have "\<dots> = of_int (int (Suc n))" using fl_n by simp
    also have "\<dots> \<le> of_int (2 ^ Suc (ilog2 n))"
      using b(2) by (metis Suc_leI of_int_le_iff of_nat_le_iff of_nat_numeral of_nat_power)
    finally have hi: "a < 2 ^ Suc (ilog2 n)" by simp
    have p1: "(2::rat) powi int (ilog2 n) = 2 ^ ilog2 n" by simp
    have p2: "(2::rat) powi (int (ilog2 n) + 1) = 2 ^ Suc (ilog2 n)"
      by (metis of_nat_Suc power_int_of_nat add.commute of_nat_1 of_nat_add plus_1_eq_Suc)
    show ?thesis unfolding e p1 p2 using lo hi by simp
  next
    case False
    then have a1: "a < 1" by simp
    define N where "N = \<lceil>1 / a\<rceil>"
    define n where "n = nat (N - 1)"
    have "1 < 1 / a" using apos a1 by simp
    then have N2: "2 \<le> N" unfolding N_def by (simp add: le_ceiling_iff)
    then have n1: "0 < n" and nN: "int n = N - 1" by (simp_all add: n_def)
    define k where "k = ilog2 n"
    have e: "exponent x = - int k - 1"
      using False by (simp add: exponent_def a_def n_def N_def k_def)
    from ilog2_bounds [OF n1] have b: "2 ^ k \<le> n" "n < 2 ^ Suc k" by (simp_all add: k_def)
    \<comment> \<open>upper bound\<close>
    from b(1) have "(2::int) ^ k \<le> int n" by (metis of_nat_le_iff of_nat_numeral of_nat_power)
    then have "(2::int) ^ k < N" using nN by simp
    then have "of_int (2 ^ k) < 1 / a" unfolding N_def by (simp only: less_ceiling_iff)
    then have "(2::rat) ^ k < 1 / a" by simp
    then have "a * 2 ^ k < 1" using apos by (simp add: pos_less_divide_eq mult.commute)
    then have hi: "a < 1 / 2 ^ k" by (simp add: pos_less_divide_eq)
    \<comment> \<open>lower bound\<close>
    from b(2) have "int n < 2 ^ Suc k" by (metis of_nat_less_iff of_nat_numeral of_nat_power)
    then have "N \<le> 2 ^ Suc k" using nN by simp
    then have "1 / a \<le> of_int (2 ^ Suc k)" unfolding N_def by (simp only: ceiling_le_iff)
    then have "1 / a \<le> 2 ^ Suc k" by simp
    then have "1 \<le> a * 2 ^ Suc k" using apos by (simp add: pos_divide_le_eq mult.commute)
    then have lo: "1 / 2 ^ Suc k \<le> a" by (simp add: pos_divide_le_eq)
    have p1: "(2::rat) powi (- int k - 1) = 1 / 2 ^ Suc k"
    proof -
      have "- int k - 1 = - int (Suc k)" by simp
      then show ?thesis by (simp only: power_int_minus_divide power_int_of_nat)
    qed
    have p2: "(2::rat) powi (- int k - 1 + 1) = 1 / 2 ^ k"
      by (simp add: power_int_minus_divide)
    show ?thesis unfolding e p1 p2 using lo hi by simp
  qed
  then show "2 powi exponent x \<le> \<bar>x\<bar>" and "\<bar>x\<bar> < 2 powi (exponent x + 1)"
    by (simp_all add: a_def)
qed

lemma round_half_even_le: "x \<le> of_int m \<Longrightarrow> round_half_even x \<le> m"
proof -
  assume a: "x \<le> of_int m"
  have f: "\<lfloor>x\<rfloor> \<le> m" using a by (simp add: floor_le_iff) 
  show ?thesis
  proof (cases "\<lfloor>x\<rfloor> = m")
    case True
    then have "of_int m \<le> x" by (metis of_int_floor_le)
    with a have "x = of_int m" by simp
    then show ?thesis by (simp add: round_half_even_def)
  next
    case False
    with f have "\<lfloor>x\<rfloor> + 1 \<le> m" by simp
    then show ?thesis by (auto simp add: round_half_even_def Let_def)
  qed
qed

lemma round_half_even_ge: "of_int m \<le> x \<Longrightarrow> m \<le> round_half_even x"
proof -
  assume "of_int m \<le> x"
  then have "m \<le> \<lfloor>x\<rfloor>" by (simp add: le_floor_iff)
  then show ?thesis by (auto simp add: round_half_even_def Let_def)
qed

lemma fl_pos_unfold:
  assumes "0 < x"
  shows "fl x = of_int (round_half_even (x / 2 powi (exponent x - 52))) * 2 powi (exponent x - 52)"
  using assms by (simp add: fl_def Let_def)

lemma scaled_grid:
  fixes m :: int
  assumes "e < 53 + k"
  shows "of_int m * 2 powi k / 2 powi (e - 52) = (of_int (m * 2 ^ nat (k - e + 52)) :: rat)"
proof -
  have nn: "0 \<le> k - e + 52" using assms by simp
  have "(2::rat) powi k / 2 powi (e - 52) = 2 powi (k - (e - 52))"
    by (simp add: power_int_diff)
  also have "k - (e - 52) = int (nat (k - e + 52))" using nn by simp
  also have "(2::rat) powi int (nat (k - e + 52)) = 2 ^ nat (k - e + 52)"
    by (rule power_int_of_nat)
  finally have "(2::rat) powi k / 2 powi (e - 52) = 2 ^ nat (k - e + 52)" .
  then have "of_int m * 2 powi k / 2 powi (e - 52) = of_int m * (2::rat) ^ nat (k - e + 52)"
    by (metis times_divide_eq_right)
  then show ?thesis by simp
qed

lemma fl_le_grid:
  fixes m :: int
  assumes x: "0 < x" and le: "x \<le> of_int m * 2 powi k" and m: "m < 2 ^ 53"
  shows "fl x \<le> of_int m * 2 powi k"
proof -
  define e where "e = exponent x"
  define u :: rat where "u = 2 powi (e - 52)"
  have upos: "0 < u" by (simp add: u_def)
  have xne: "x \<noteq> 0" using x by simp
  from exponent_bounds(1) [OF xne] x have lo: "2 powi e \<le> x" by (simp add: e_def)
  have mpos: "0 < m"
  proof (rule ccontr)
    assume "\<not> 0 < m"
    then have "of_int m * (2::rat) powi k \<le> 0"
      by (simp add: mult_le_0_iff)
    with le x show False by simp
  qed
  have "of_int m * (2::rat) powi k < 2 ^ 53 * 2 powi k"
  proof -
    have "(of_int m :: rat) < of_int (2 ^ 53)" using m by (simp only: of_int_less_iff)
    then have "(of_int m :: rat) < 2 ^ 53" by simp
    then show ?thesis by (simp add: mult_strict_right_mono)
  qed
  also have "(2::rat) ^ 53 * 2 powi k = 2 powi (53 + k)"
    by (simp add: power_int_add)
  finally have "(2::rat) powi e < 2 powi (53 + k)" using lo le by simp
  have ek: "e < 53 + k"
  proof (rule ccontr)
    assume "\<not> e < 53 + k"
    then have "53 + k \<le> e" by simp
    then have "(2::rat) powi (53 + k) \<le> 2 powi e"
      by (simp add: power_int_increasing)
    with \<open>(2::rat) powi e < 2 powi (53 + k)\<close> show False by simp
  qed
  have grid: "of_int m * 2 powi k / u = (of_int (m * 2 ^ nat (k - e + 52)) :: rat)"
    unfolding u_def by (rule scaled_grid [OF ek])
  have "x / u \<le> of_int m * 2 powi k / u" using le upos by (simp add: divide_right_mono)
  then have "x / u \<le> of_int (m * 2 ^ nat (k - e + 52))" by (simp only: grid)
  then have "round_half_even (x / u) \<le> m * 2 ^ nat (k - e + 52)"
    by (rule round_half_even_le)
  then have "(of_int (round_half_even (x / u)) :: rat) \<le> of_int (m * 2 ^ nat (k - e + 52))"
    by (simp only: of_int_le_iff)
  then have "of_int (round_half_even (x / u)) * u \<le> of_int (m * 2 ^ nat (k - e + 52)) * u"
    using upos by (simp add: mult_right_mono)
  also have "of_int (m * 2 ^ nat (k - e + 52)) * u = of_int m * 2 powi k"
    using grid upos by (metis nonzero_divide_eq_eq less_irrefl)
  finally show ?thesis
    unfolding fl_pos_unfold [OF x] e_def [symmetric] u_def [symmetric] .
qed

lemma fl_ge_grid:
  fixes m :: int
  assumes y: "0 < m" and le: "of_int m * 2 powi k \<le> x" and m: "m < 2 ^ 53"
  shows "of_int m * 2 powi k \<le> fl x"
proof -
  define e where "e = exponent x"
  define u :: rat where "u = 2 powi (e - 52)"
  have upos: "0 < u" by (simp add: u_def)
  have ypos: "0 < of_int m * (2::rat) powi k" using y by simp
  with le have x: "0 < x" by simp
  then have xne: "x \<noteq> 0" by simp
  from exponent_bounds(1) [OF xne] x have lo: "2 powi e \<le> x" by (simp add: e_def)
  have flx: "fl x = of_int (round_half_even (x / u)) * u"
    unfolding fl_pos_unfold [OF x] e_def [symmetric] u_def [symmetric] ..
  show ?thesis
  proof (cases "e < 53 + k")
    case True
    have grid: "of_int m * 2 powi k / u = (of_int (m * 2 ^ nat (k - e + 52)) :: rat)"
      unfolding u_def by (rule scaled_grid [OF True])
    have "of_int m * 2 powi k / u \<le> x / u" using le upos by (simp add: divide_right_mono)
    then have "of_int (m * 2 ^ nat (k - e + 52)) \<le> x / u" by (simp only: grid)
    then have "m * 2 ^ nat (k - e + 52) \<le> round_half_even (x / u)"
      by (rule round_half_even_ge)
    then have "(of_int (m * 2 ^ nat (k - e + 52)) :: rat) \<le> of_int (round_half_even (x / u))"
      by (simp only: of_int_le_iff)
    then have "of_int (m * 2 ^ nat (k - e + 52)) * u \<le> of_int (round_half_even (x / u)) * u"
      using upos by (simp only: mult_right_mono less_imp_le)
    moreover have "of_int (m * 2 ^ nat (k - e + 52)) * u = of_int m * 2 powi k"
      using grid upos by (metis nonzero_divide_eq_eq less_irrefl)
    ultimately have "of_int m * 2 powi k \<le> of_int (round_half_even (x / u)) * u"
      by (simp only:)
    then show ?thesis by (simp only: flx)
  next
    case False
    then have "53 + k \<le> e" by simp
    then have c: "(2::rat) powi (53 + k) \<le> 2 powi e"
      by (simp add: power_int_increasing)
    have a: "of_int m * (2::rat) powi k \<le> 2 ^ 53 * 2 powi k"
    proof -
      from m have "m \<le> 2 ^ 53" by simp
      then have "(of_int m :: rat) \<le> of_int (2 ^ 53)" by (simp only: of_int_le_iff)
      then have "(of_int m :: rat) \<le> 2 ^ 53" by simp
      then show ?thesis by (simp add: mult_right_mono)
    qed
    have b: "(2::rat) ^ 53 * 2 powi k = 2 powi (53 + k)"
      by (simp add: power_int_add)
    from a have "of_int m * (2::rat) powi k \<le> 2 powi (53 + k)" by (simp only: b)
    then have yle: "of_int m * (2::rat) powi k \<le> 2 powi e" using c by (rule order_trans)
    have "2 powi e / u = (2::rat) ^ 52"
      by (simp add: u_def power_int_diff [symmetric])
    then have "(of_int (2 ^ 52) :: rat) \<le> x / u"
      using lo upos by (metis divide_right_mono less_imp_le of_int_numeral of_int_power)
    then have "2 ^ 52 \<le> round_half_even (x / u)" by (rule round_half_even_ge)
    then have "(of_int (2 ^ 52) :: rat) \<le> of_int (round_half_even (x / u))"
      by (simp only: of_int_le_iff)
    then have r: "of_int (2 ^ 52) * u \<le> of_int (round_half_even (x / u)) * u"
      using upos by (simp only: mult_right_mono less_imp_le)
    have p: "of_int (2 ^ 52) * u = 2 powi e"
    proof -
      have "(2::rat) powi (52 + (e - 52)) = 2 powi 52 * 2 powi (e - 52)"
        by (rule power_int_add) simp
      moreover have "52 + (e - 52) = e" by simp
      ultimately have "(2::rat) powi e = 2 powi 52 * 2 powi (e - 52)" by (simp only:)
      then show ?thesis by (simp add: u_def)
    qed
    from r have "2 powi e \<le> of_int (round_half_even (x / u)) * u" by (simp only: p)
    with yle have "of_int m * 2 powi k \<le> of_int (round_half_even (x / u)) * u"
      by (rule order_trans)
    then show ?thesis by (simp only: flx)
  qed
qed

text \<open>
  A float is its own nearest float: rounding a rounded value changes nothing.
\<close>

lemma fl_idem_pos:
  assumes x: "0 < x"
  shows "fl (fl x) = fl x"
proof -
  define e where "e = exponent x"
  define u :: rat where "u = 2 powi (e - 52)"
  define r where "r = round_half_even (x / u)"
  have upos: "0 < u" by (simp add: u_def)
  have xne: "x \<noteq> 0" using x by simp
  from exponent_bounds [OF xne] x
  have lo: "2 powi e \<le> x" and hi: "x < 2 powi (e + 1)" by (simp_all add: e_def)
  have flx: "fl x = of_int r * u"
    unfolding fl_pos_unfold [OF x] e_def [symmetric] u_def [symmetric] r_def ..
  have p52: "2 powi e = (2::rat) ^ 52 * u"
  proof -
    have "(2::rat) powi (52 + (e - 52)) = 2 powi 52 * 2 powi (e - 52)"
      by (rule power_int_add) simp
    moreover have "52 + (e - 52) = e" by simp
    ultimately have "(2::rat) powi e = 2 powi 52 * 2 powi (e - 52)" by (simp only:)
    then show ?thesis by (simp add: u_def)
  qed
  have p53: "2 powi (e + 1) = (2::rat) ^ 53 * u"
  proof -
    have "(2::rat) powi (53 + (e - 52)) = 2 powi 53 * 2 powi (e - 52)"
      by (rule power_int_add) simp
    moreover have "53 + (e - 52) = e + 1" by simp
    ultimately have "(2::rat) powi (e + 1) = 2 powi 53 * 2 powi (e - 52)" by (simp only:)
    then show ?thesis by (simp add: u_def)
  qed
  have "(2::rat) ^ 52 * u \<le> x" using lo by (simp only: p52)
  then have "(2::rat) ^ 52 \<le> x / u" using upos by (simp add: pos_le_divide_eq)
  then have "of_int (2 ^ 52) \<le> x / u" by simp
  then have r_lo: "2 ^ 52 \<le> r" unfolding r_def by (rule round_half_even_ge)
  have "x < (2::rat) ^ 53 * u" using hi by (simp only: p53)
  then have "x / u < (2::rat) ^ 53" using upos by (simp add: pos_divide_less_eq)
  then have "x / u \<le> of_int (2 ^ 53)" by simp
  then have r_hi: "r \<le> 2 ^ 53" unfolding r_def by (rule round_half_even_le)
  have rpos: "0 < r" using r_lo by simp
  show ?thesis
  proof (cases "r < 2 ^ 53")
    case True
    have ypos: "0 < of_int r * u" using rpos upos by simp
    have a: "fl (of_int r * u) \<le> of_int r * u"
      unfolding u_def by (rule fl_le_grid [OF ypos [unfolded u_def] order_refl True])
    have b: "of_int r * u \<le> fl (of_int r * u)"
      unfolding u_def by (rule fl_ge_grid [OF rpos order_refl True])
    from a b show ?thesis unfolding flx by simp
  next
    case False
    with r_hi have r53: "r = 2 ^ 53" by simp
    have y: "of_int r * u = of_int 1 * 2 powi (e + 1)"
      unfolding r53 p53 by simp
    have ypos: "0 < of_int 1 * (2::rat) powi (e + 1)" by simp
    have one: "(1::int) < 2 ^ 53" by simp
    have a: "fl (of_int 1 * 2 powi (e + 1)) \<le> of_int 1 * 2 powi (e + 1)"
      by (rule fl_le_grid [OF ypos order_refl one])
    have b: "of_int 1 * 2 powi (e + 1) \<le> fl (of_int 1 * 2 powi (e + 1))"
      by (rule fl_ge_grid [OF _ order_refl one]) simp
    from a b show ?thesis unfolding flx y by simp
  qed
qed

lemma fl_idem: "0 \<le> x \<Longrightarrow> fl (fl x) = fl x"
  using fl_idem_pos [of x] by (cases "x = 0") (simp_all add: fl_def)

subsection \<open>The formatting loop\<close>

lemma convert_loop_None_iff:
  "convert_loop b us = None \<longleftrightarrow> (\<forall>i<length us. 1000 \<le> divided b i)"
proof (induction us arbitrary: b)
  case Nil
  then show ?case by simp
next
  case (Cons u us)
  show ?case
  proof (cases "b < 1000")
    case True
    then have "\<not> (\<forall>i<length (u # us). 1000 \<le> divided b i)"
      by (auto intro: exI [of _ 0])
    with True show ?thesis by simp
  next
    case False
    have "(\<forall>i<length (u # us). 1000 \<le> divided b i)
        \<longleftrightarrow> (\<forall>i<length us. 1000 \<le> divided (fl (b / 1000)) i)"
    proof
      assume a: "\<forall>i<length (u # us). 1000 \<le> divided b i"
      show "\<forall>i<length us. 1000 \<le> divided (fl (b / 1000)) i"
      proof (intro allI impI)
        fix i assume "i < length us"
        then have "Suc i < length (u # us)" by simp
        with a have "1000 \<le> divided b (Suc i)" by blast
        then show "1000 \<le> divided (fl (b / 1000)) i" by simp
      qed
    next
      assume a: "\<forall>i<length us. 1000 \<le> divided (fl (b / 1000)) i"
      show "\<forall>i<length (u # us). 1000 \<le> divided b i"
      proof (intro allI impI)
        fix i assume i: "i < length (u # us)"
        show "1000 \<le> divided b i"
        proof (cases i)
          case 0
          with False show ?thesis by simp
        next
          case (Suc j)
          with i a show ?thesis by simp
        qed
      qed
    qed
    with False Cons.IH [of "fl (b / 1000)"] show ?thesis by simp
  qed
qed

lemma convert_loop_Some_iff:
  "convert_loop b us = Some s \<longleftrightarrow>
     (\<exists>i<length us. s = fmt2 (fl (divided b i)) @ '' '' @ us ! i
         \<and> divided b i < 1000 \<and> (\<forall>j<i. 1000 \<le> divided b j))"
proof (induction us arbitrary: b)
  case Nil
  then show ?case by simp
next
  case (Cons u us)
  show ?case
  proof (cases "b < 1000")
    case True
    show ?thesis
    proof
      assume "convert_loop b (u # us) = Some s"
      with True have "s = fmt2 (fl b) @ '' '' @ u" by auto
      with True show "\<exists>i<length (u # us). s = fmt2 (fl (divided b i)) @ '' '' @ (u # us) ! i
         \<and> divided b i < 1000 \<and> (\<forall>j<i. 1000 \<le> divided b j)"
        by (intro exI [of _ 0]) simp
    next
      assume "\<exists>i<length (u # us). s = fmt2 (fl (divided b i)) @ '' '' @ (u # us) ! i
         \<and> divided b i < 1000 \<and> (\<forall>j<i. 1000 \<le> divided b j)"
      then obtain i where i: "s = fmt2 (fl (divided b i)) @ '' '' @ (u # us) ! i"
        "\<forall>j<i. 1000 \<le> divided b j" by blast
      have "i = 0"
      proof (rule ccontr)
        assume "i \<noteq> 0"
        then have "1000 \<le> divided b 0" using i(2) by blast
        with True show False by simp
      qed
      with i True show "convert_loop b (u # us) = Some s" by simp
    qed
  next
    case False
    have step: "convert_loop b (u # us) = convert_loop (fl (b / 1000)) us"
      using False by simp
    show ?thesis
      unfolding step Cons.IH
    proof
      assume "\<exists>i<length us. s = fmt2 (fl (divided (fl (b / 1000)) i)) @ '' '' @ us ! i
         \<and> divided (fl (b / 1000)) i < 1000 \<and> (\<forall>j<i. 1000 \<le> divided (fl (b / 1000)) j)"
      then obtain i where i: "i < length us"
        "s = fmt2 (fl (divided (fl (b / 1000)) i)) @ '' '' @ us ! i"
        "divided (fl (b / 1000)) i < 1000" "\<forall>j<i. 1000 \<le> divided (fl (b / 1000)) j" by blast
      have "\<forall>j<Suc i. 1000 \<le> divided b j"
      proof (intro allI impI)
        fix j assume "j < Suc i"
        show "1000 \<le> divided b j"
        proof (cases j)
          case 0
          with False show ?thesis by simp
        next
          case (Suc k)
          with \<open>j < Suc i\<close> i(4) show ?thesis by simp
        qed
      qed
      with i show "\<exists>i<length (u # us). s = fmt2 (fl (divided b i)) @ '' '' @ (u # us) ! i
         \<and> divided b i < 1000 \<and> (\<forall>j<i. 1000 \<le> divided b j)"
        by (intro exI [of _ "Suc i"]) simp
    next
      assume "\<exists>i<length (u # us). s = fmt2 (fl (divided b i)) @ '' '' @ (u # us) ! i
         \<and> divided b i < 1000 \<and> (\<forall>j<i. 1000 \<le> divided b j)"
      then obtain i where i: "i < length (u # us)"
        "s = fmt2 (fl (divided b i)) @ '' '' @ (u # us) ! i"
        "divided b i < 1000" "\<forall>j<i. 1000 \<le> divided b j" by blast
      from False i(3) have "i \<noteq> 0" by (cases i) auto
      then obtain k where k: "i = Suc k" by (cases i) auto
      have "\<forall>j<k. 1000 \<le> divided (fl (b / 1000)) j"
      proof (intro allI impI)
        fix j assume "j < k"
        then have "Suc j < i" using k by simp
        with i(4) have "1000 \<le> divided b (Suc j)" by blast
        then show "1000 \<le> divided (fl (b / 1000)) j" by simp
      qed
      with i k show "\<exists>i<length us. s = fmt2 (fl (divided (fl (b / 1000)) i)) @ '' '' @ us ! i
         \<and> divided (fl (b / 1000)) i < 1000 \<and> (\<forall>j<i. 1000 \<le> divided (fl (b / 1000)) j)"
        by (intro exI [of _ k]) simp
    qed
  qed
qed

lemma divided_Suc: "divided b (Suc i) = fl (divided b i / 1000)"
  by (induction i arbitrary: b) simp_all

text \<open>
  After a division the value is a float, so the formatter renders that very value.
\<close>

lemma divided_is_float: "0 \<le> b \<Longrightarrow> 0 < i \<Longrightarrow> fl (divided b i) = divided b i"
proof (induction i arbitrary: b)
  case 0
  then show ?case by simp
next
  case (Suc i)
  have nn: "0 \<le> fl (b / 1000)"
  proof (cases "b = 0")
    case True
    then show ?thesis by (simp add: fl_def)
  next
    case False
    with Suc.prems have "0 < b / 1000" by simp
    then have "of_int 0 * 2 powi 0 \<le> b / 1000" by simp
    show ?thesis
    proof (rule ccontr)
      assume "\<not> 0 \<le> fl (b / 1000)"
      then have neg: "fl (b / 1000) < 0" by simp
      have "0 < b / 1000" by fact
      then have "0 \<le> of_int (round_half_even (b / 1000 / 2 powi (exponent (b / 1000) - 52)))
          * (2::rat) powi (exponent (b / 1000) - 52)"
        by (intro mult_nonneg_nonneg) (simp_all add: round_half_even_ge)
      with neg \<open>0 < b / 1000\<close> show False by (simp add: fl_pos_unfold)
    qed
  qed
  show ?case
  proof (cases i)
    case 0
    then show ?thesis using fl_idem [of "b / 1000"] Suc.prems by simp
  next
    case (Suc j)
    then show ?thesis using Suc.IH [OF nn] by simp
  qed
qed

lemma units_length: "length units = 5"
  by (simp add: units_def)

lemmas fmt_eval = convert_from_bytes_def units_def fmt2_def show_nat.simps digit_def
  py_str_def fl_eval

lemma format_950: "convert_from_bytes 950 = Some ''950.00 bytes''"
  by (simp add: fmt_eval)

lemma format_1500: "convert_from_bytes 1500 = Some ''1.50 KB''"
  by (simp add: fmt_eval)

lemma format_2500000: "convert_from_bytes 2500000 = Some ''2.50 MB''"
  by (simp add: fmt_eval)

text \<open>
  Where the quotient is not a float, the digits are those of the float nearest to it:
  1015 / 1000 is a float just below 1.015 and 1145 / 1000 one just above 1.145.
\<close>

lemma format_1015: "convert_from_bytes 1015 = Some ''1.01 KB''"
  by (simp add: fmt_eval)

lemma format_1145: "convert_from_bytes 1145 = Some ''1.15 KB''"
  by (simp add: fmt_eval)

lemma divided_steps:
  "divided b 1 = fl (b / 1000)"
  "divided b 2 = fl (fl (b / 1000) / 1000)"
  "divided b 3 = fl (fl (fl (b / 1000) / 1000) / 1000)"
  "divided b 4 = fl (fl (fl (fl (b / 1000) / 1000) / 1000) / 1000)"
  by (simp_all add: eval_nat_numeral)

lemma all_less_5: "(\<forall>i<5. P i) \<longleftrightarrow> P 0 \<and> P 1 \<and> P 2 \<and> P 3 \<and> P (4::nat)"
proof
  assume "\<forall>i<5. P i"
  then show "P 0 \<and> P 1 \<and> P 2 \<and> P 3 \<and> P 4" by simp
next
  assume a: "P 0 \<and> P 1 \<and> P 2 \<and> P 3 \<and> P 4"
  show "\<forall>i<5. P i"
  proof (intro allI impI)
    fix i :: nat assume "i < 5"
    then have "i = 0 \<or> i = 1 \<or> i = 2 \<or> i = 3 \<or> i = 4" by arith
    with a show "P i" by auto
  qed
qed

lemma fl_div_ge:
  fixes m :: int
  assumes "0 < m" and "m < 2 ^ 53" and "1000 * of_int m \<le> x"
  shows "of_int m \<le> fl (x / 1000)"
proof -
  from assms(3) have "of_int m * 2 powi 0 \<le> x / 1000" by simp
  from fl_ge_grid [OF assms(1) this assms(2)] show ?thesis by simp
qed

lemma exhausted_of_large:
  assumes "1000 ^ 5 \<le> b"
  shows "\<forall>i<5. 1000 \<le> divided b i"
proof -
  have d0: "1000 \<le> b" using assms by simp
  have "1000 * of_int 1000000000000 \<le> b" using assms by simp
  then have d1: "of_int 1000000000000 \<le> fl (b / 1000)"
    by (intro fl_div_ge) simp_all
  then have "1000 * of_int 1000000000 \<le> fl (b / 1000)" by simp
  then have d2: "of_int 1000000000 \<le> fl (fl (b / 1000) / 1000)"
    by (intro fl_div_ge) simp_all
  then have "1000 * of_int 1000000 \<le> fl (fl (b / 1000) / 1000)" by simp
  then have d3: "of_int 1000000 \<le> fl (fl (fl (b / 1000) / 1000) / 1000)"
    by (intro fl_div_ge) simp_all
  then have "1000 * of_int 1000 \<le> fl (fl (fl (b / 1000) / 1000) / 1000)" by simp
  then have d4: "of_int 1000 \<le> fl (fl (fl (fl (b / 1000) / 1000) / 1000) / 1000)"
    by (intro fl_div_ge) simp_all
  show ?thesis
    unfolding all_less_5 divided_steps using d0 d1 d2 d3 d4 by simp
qed

lemma fl_div_le:
  fixes m :: int
  assumes "0 < x" and "m < 2 ^ 53" and "x / 1000 \<le> of_int m * 2 powi k"
  shows "fl (x / 1000) \<le> of_int m * 2 powi k"
proof -
  from assms(1) have "0 < x / 1000" by simp
  from fl_le_grid [OF this assms(3) assms(2)] show ?thesis .
qed

lemma rendered_of_small:
  assumes "b \<le> 1000 ^ 5 - 1"
  shows "\<not> (\<forall>i<5. 1000 \<le> divided b i)"
proof
  assume "\<forall>i<5. 1000 \<le> divided b i"
  then have d0: "1000 \<le> b"
    and d1: "1000 \<le> fl (b / 1000)"
    and d2: "1000 \<le> fl (fl (b / 1000) / 1000)"
    and d3: "1000 \<le> fl (fl (fl (b / 1000) / 1000) / 1000)"
    and d4: "1000 \<le> fl (fl (fl (fl (b / 1000) / 1000) / 1000) / 1000)"
    unfolding all_less_5 divided_steps by simp_all
  have "b / 1000 \<le> of_int 8191999999999999 * 2 powi (- 13)"
    using assms by simp
  then have u1: "fl (b / 1000) \<le> of_int 8191999999999999 * 2 powi (- 13)"
    using d0 by (intro fl_div_le) simp_all
  then have "fl (b / 1000) / 1000 \<le> of_int 8388607999999999 * 2 powi (- 23)"
    by simp
  then have u2: "fl (fl (b / 1000) / 1000) \<le> of_int 8388607999999999 * 2 powi (- 23)"
    using d1 by (intro fl_div_le) simp_all
  then have "fl (fl (b / 1000) / 1000) / 1000 \<le> of_int 8589934591999999 * 2 powi (- 33)"
    by simp
  then have u3: "fl (fl (fl (b / 1000) / 1000) / 1000)
      \<le> of_int 8589934591999999 * 2 powi (- 33)"
    using d2 by (intro fl_div_le) simp_all
  then have "fl (fl (fl (b / 1000) / 1000) / 1000) / 1000
      \<le> of_int 8796093022207999 * 2 powi (- 43)"
    by simp
  then have u4: "fl (fl (fl (fl (b / 1000) / 1000) / 1000) / 1000)
      \<le> of_int 8796093022207999 * 2 powi (- 43)"
    using d3 by (intro fl_div_le) simp_all
  then have "fl (fl (fl (fl (b / 1000) / 1000) / 1000) / 1000) < 1000" by simp
  with d4 show False by simp
qed

subsection \<open>Size formatting\<close>

text \<open>
  Claim C8. The formatter divides by 1000 from unit to unit, in the order bytes, KB, MB,
  GB, TB, and selects the unit at which the value is below 1000 while in every unit
  before it the value is still 1000 or more. It renders the value in that unit with two
  decimals, followed by the name of the unit. So 950 bytes gives \<open>950.00 bytes\<close>, 1500
  bytes gives \<open>1.50 KB\<close> and 2500000 bytes gives \<open>2.50 MB\<close>.
\<close>

theorem convert_from_bytes_first_unit:
  "(convert_from_bytes bytes = Some s \<longleftrightarrow>
      (\<exists>i<5. s = fmt2 (fl (divided (of_int bytes) i)) @ '' '' @ units ! i
          \<and> divided (of_int bytes) i < 1000
          \<and> (\<forall>j<i. 1000 \<le> divided (of_int bytes) j)))
   \<and> divided (of_int bytes) 0 = of_int bytes
   \<and> divided (of_int bytes) (Suc k) = fl (divided (of_int bytes) k / 1000)
   \<and> convert_from_bytes 950 = Some ''950.00 bytes''
   \<and> convert_from_bytes 1500 = Some ''1.50 KB''
   \<and> convert_from_bytes 2500000 = Some ''2.50 MB''"
proof (intro conjI)
  show "convert_from_bytes bytes = Some s \<longleftrightarrow>
      (\<exists>i<5. s = fmt2 (fl (divided (of_int bytes) i)) @ '' '' @ units ! i
          \<and> divided (of_int bytes) i < 1000
          \<and> (\<forall>j<i. 1000 \<le> divided (of_int bytes) j))"
    using convert_loop_Some_iff [of "of_int bytes" units s]
    by (simp add: convert_from_bytes_def units_length)
next
  show "divided (of_int bytes) 0 = of_int bytes" by simp
next
  show "divided (of_int bytes) (Suc k) = fl (divided (of_int bytes) k / 1000)"
    by (rule divided_Suc)
qed (rule format_950 format_1500 format_2500000)+

theorem convert_from_bytes_first_unit_witness:
  "convert_from_bytes 1500 = Some ''1.50 KB''
   \<and> (\<exists>i<5. ''1.50 KB'' = fmt2 (fl (divided (of_int 1500) i)) @ '' '' @ units ! i
          \<and> divided (of_int 1500) i < 1000
          \<and> (\<forall>j<i. 1000 \<le> divided (of_int 1500) j))"
  using convert_from_bytes_first_unit [of 1500 "''1.50 KB''"] by blast

text \<open>
  Claim C10. A byte count of \<open>1000 ^ 5\<close> or more exhausts the loop over the units: the
  formatter returns no string. (Every smaller count gets one.)
\<close>

theorem convert_from_bytes_exhausted:
  "convert_from_bytes bytes = None \<longleftrightarrow> 1000 ^ 5 \<le> bytes"
proof -
  have len: "length units = 5" by (simp add: units_def)
  have a: "((1000::rat) ^ 5 \<le> of_int bytes) = (1000 ^ 5 \<le> bytes)"
    using of_int_le_iff [where ?'a = rat, of "1000 ^ 5" bytes] by simp
  have b: "((of_int bytes :: rat) \<le> 1000 ^ 5 - 1) = (bytes \<le> 1000 ^ 5 - 1)"
    using of_int_le_iff [where ?'a = rat, of bytes "1000 ^ 5 - 1"] by simp
  show ?thesis
  proof (cases "1000 ^ 5 \<le> bytes")
    case True
    then have "(1000::rat) ^ 5 \<le> of_int bytes" by (simp only: a)
    then have "\<forall>i<5. 1000 \<le> divided (of_int bytes) i" by (rule exhausted_of_large)
    then have "convert_loop (of_int bytes) units = None"
      unfolding convert_loop_None_iff len .
    with True show ?thesis by (simp add: convert_from_bytes_def)
  next
    case False
    then have "bytes \<le> 1000 ^ 5 - 1" by simp
    then have "(of_int bytes :: rat) \<le> 1000 ^ 5 - 1" by (simp only: b)
    then have "\<not> (\<forall>i<5. 1000 \<le> divided (of_int bytes) i)" by (rule rendered_of_small)
    then have "convert_loop (of_int bytes) units \<noteq> None"
      unfolding convert_loop_None_iff len .
    with False show ?thesis by (simp add: convert_from_bytes_def)
  qed
qed

theorem convert_from_bytes_exhausted_witness:
  "(1000::int) ^ 5 \<le> 1000000000000000 \<and> convert_from_bytes 1000000000000000 = None"
  using convert_from_bytes_exhausted [of 1000000000000000] by simp

subsection \<open>The branches of the single-file optimizer\<close>

lemmas prims = getsize_def remove_file_def rename_file_def launch_minimized_process_def
  wait_or_terminate_def deliver_def clear_print_def log_def

lemma optimize_file_smaller:
  assumes "endswith p ''.pdf''" and "files w p = Some c"
    and "starts (tool env)" and "exit_status (tool env) = Some 0"
    and "written (tool env) = Some d" and "length d < length c"
    and "output_path os (uuid_hex env) p \<noteq> p"
  shows "optimize_file os env p verbose w =
     (Inr (Some (int (length c), int (length d))),
      \<lparr>files = (files w)(output_path os (uuid_hex env) p := None, p := Some d),
       trace = trace w @
         [Stat p,
          Spawn (GS @ [dq] @ output_path os (uuid_hex env) p @ [dq] @ '' '' @ [dq] @ p @ [dq]),
          Print ([CHR 0x1B] @ ''[1K'' @ [CHR 0x0D] @ ''Optimizing '' @ basename os p @ ''...''),
          Wait 60,
          Stat (output_path os (uuid_hex env) p),
          Remove p,
          Rename (output_path os (uuid_hex env) p) p]
         @ (if verbose then
              [Print ([CHR 0x1B] @ ''[1K'' @ [CHR 0x0D] @ basename os p @ '': ''
                      @ py_str (convert_from_bytes (int (length c))) @ '' -> ''
                      @ py_str (convert_from_bytes (int (length d))) @ [CHR 0x0A])]
            else [])\<rparr>)"
  using assms by (simp add: optimize_file_def prims Let_def fun_upd_twist)

lemma optimize_file_not_smaller:
  assumes "endswith p ''.pdf''" and "files w p = Some c"
    and "starts (tool env)" and "exit_status (tool env) = Some 0"
    and "written (tool env) = Some d" and "length c \<le> length d"
    and "output_path os (uuid_hex env) p \<noteq> p"
  shows "optimize_file os env p verbose w =
     (Inr None,
      \<lparr>files = (files w)(output_path os (uuid_hex env) p := None),
       trace = trace w @
         [Stat p,
          Spawn (GS @ [dq] @ output_path os (uuid_hex env) p @ [dq] @ '' '' @ [dq] @ p @ [dq]),
          Print ([CHR 0x1B] @ ''[1K'' @ [CHR 0x0D] @ ''Optimizing '' @ basename os p @ ''...''),
          Wait 60,
          Stat (output_path os (uuid_hex env) p)]
         @ (if verbose then
              [Print ([CHR 0x1B] @ ''[1K'' @ [CHR 0x0D] @ basename os p
                      @ '': no optimization needed'' @ [CHR 0x0A])]
            else [])
         @ [Remove (output_path os (uuid_hex env) p)]\<rparr>)"
  using assms by (simp add: optimize_file_def prims Let_def)

lemma optimize_file_failed:
  assumes "endswith p ''.pdf''" and "files w p = Some c"
    and "starts (tool env)" and "exit_status (tool env) \<noteq> Some 0"
  shows "optimize_file os env p verbose w =
     (Inr None,
      \<lparr>files = (case written (tool env) of None \<Rightarrow> files w
                 | Some d \<Rightarrow> (files w)(output_path os (uuid_hex env) p := Some d)),
       trace = trace w @
         [Stat p,
          Spawn (GS @ [dq] @ output_path os (uuid_hex env) p @ [dq] @ '' '' @ [dq] @ p @ [dq]),
          Print ([CHR 0x1B] @ ''[1K'' @ [CHR 0x0D] @ ''Optimizing '' @ basename os p @ ''...''),
          Wait 60]
         @ (if exit_status (tool env) = None then [Terminate] else [])\<rparr>)"
  using assms by (auto simp add: optimize_file_def prims Let_def split: option.splits)

lemma optimize_file_result_frame:
  assumes "files w1 q = files w2 q"
    and "files w1 (output_path os (uuid_hex env) q) = files w2 (output_path os (uuid_hex env) q)"
  shows "fst (optimize_file os env q verbose w1) = fst (optimize_file os env q verbose w2)"
  using assms
  by (auto simp add: optimize_file_def prims Let_def split: option.splits)

lemma collect_skip_absent:
  "collect (fs1 @ Inr None # fs2) totals = collect (fs1 @ fs2) totals"
proof (induction fs1 arbitrary: totals)
  case Nil
  then show ?case by simp
next
  case (Cons f fs1)
  show ?case
  proof (cases f)
    case (Inl e)
    then show ?thesis by simp
  next
    case (Inr r)
    show ?thesis
    proof (cases r)
      case None
      with Inr Cons.IH show ?thesis by simp
    next
      case (Some ab)
      obtain a b where "ab = (a, b)" by (cases ab)
      moreover obtain t1 t2 where "totals = (t1, t2)" by (cases totals)
      ultimately show ?thesis using Inr Some Cons.IH by simp
    qed
  qed
qed

lemma collect_present:
  "collect (map Inr rs) (t1, t2) =
     Inr (t1 + (\<Sum>r\<leftarrow>rs. case r of None \<Rightarrow> 0 | Some x \<Rightarrow> fst x),
          t2 + (\<Sum>r\<leftarrow>rs. case r of None \<Rightarrow> 0 | Some x \<Rightarrow> snd x))"
proof (induction rs arbitrary: t1 t2)
  case Nil
  then show ?case by simp
next
  case (Cons r rs)
  show ?case
  proof (cases r)
    case None
    with Cons.IH show ?thesis by simp
  next
    case (Some ab)
    obtain a b where "ab = (a, b)" by (cases ab)
    with Some Cons.IH [of "t1 + a" "t2 + b"] show ?thesis by (simp add: add.assoc)
  qed
qed

lemma mset_map_Inr_ex:
  fixes fs :: "future list"
  assumes "mset fs = mset (map Inr rs)"
  shows "\<exists>rs'. fs = map Inr rs' \<and> mset rs' = mset rs"
proof -
  have "set fs = Inr ` set rs"
    using assms by (metis list.set_map set_mset_mset)
  then have "\<forall>f\<in>set fs. \<exists>r. f = Inr r" by blast
  then obtain rs' where fs: "fs = map Inr rs'"
    by (metis ex_map_conv)
  have inj: "inj (Inr :: job_result \<Rightarrow> future)" by (simp add: inj_def)
  from fs assms have "image_mset (Inr :: job_result \<Rightarrow> future) (mset rs')
      = image_mset Inr (mset rs)" by simp
  then have "mset rs' = mset rs"
    using multiset.inj_map [OF inj] by (simp add: inj_def)
  with fs show ?thesis by blast
qed

lemma collect_permuted:
  fixes fs :: "future list"
  assumes "mset fs = mset (map Inr rs)"
  shows "collect fs (0, 0) =
     Inr (\<Sum>r\<leftarrow>rs. case r of None \<Rightarrow> 0 | Some x \<Rightarrow> fst x,
          \<Sum>r\<leftarrow>rs. case r of None \<Rightarrow> 0 | Some x \<Rightarrow> snd x)"
proof -
  from mset_map_Inr_ex [OF assms] obtain rs' where rs': "fs = map Inr rs'" "mset rs' = mset rs"
    by blast
  have "(\<Sum>r\<leftarrow>rs'. case r of None \<Rightarrow> 0 | Some x \<Rightarrow> fst x)
        = (\<Sum>r\<leftarrow>rs. case r of None \<Rightarrow> (0::int) | Some x \<Rightarrow> fst x)"
    using rs'(2) by (metis mset_map sum_mset_sum_list)
  moreover have "(\<Sum>r\<leftarrow>rs'. case r of None \<Rightarrow> 0 | Some x \<Rightarrow> snd x)
        = (\<Sum>r\<leftarrow>rs. case r of None \<Rightarrow> (0::int) | Some x \<Rightarrow> snd x)"
    using rs'(2) by (metis mset_map sum_mset_sum_list)
  ultimately show ?thesis
    using collect_present [of rs' 0 0] rs'(1) by simp
qed

subsection \<open>Replace or discard\<close>

text \<open>
  Claim C1. When the compressor exits with status 0 and its output is strictly smaller
  than the source, the optimizer removes the source file and then renames the temporary
  file to the source path, in this order, and returns the pair of the source size and
  the output size. Afterwards the source path holds the compressor's output, and its
  size is the reported final size. (The temporary path is a fresh name, so it is not the
  source path.)
\<close>

theorem replace_when_smaller:
  assumes "endswith p ''.pdf''" and "files w p = Some c"
    and "starts (tool env)" and "exit_status (tool env) = Some 0"
    and "written (tool env) = Some d" and "length d < length c"
    and "output_path os (uuid_hex env) p \<noteq> p"
  shows "optimize_file os env p verbose w =
     (Inr (Some (int (length c), int (length d))),
      \<lparr>files = (files w)(output_path os (uuid_hex env) p := None, p := Some d),
       trace = trace w @
         [Stat p,
          Spawn (GS @ [dq] @ output_path os (uuid_hex env) p @ [dq] @ '' '' @ [dq] @ p @ [dq]),
          Print ([CHR 0x1B] @ ''[1K'' @ [CHR 0x0D] @ ''Optimizing '' @ basename os p @ ''...''),
          Wait 60,
          Stat (output_path os (uuid_hex env) p),
          Remove p,
          Rename (output_path os (uuid_hex env) p) p]
         @ (if verbose then
              [Print ([CHR 0x1B] @ ''[1K'' @ [CHR 0x0D] @ basename os p @ '': ''
                      @ py_str (convert_from_bytes (int (length c))) @ '' -> ''
                      @ py_str (convert_from_bytes (int (length d))) @ [CHR 0x0A])]
            else [])\<rparr>)
   \<and> files (snd (optimize_file os env p verbose w)) p = Some d
   \<and> fst (getsize p (snd (optimize_file os env p verbose w))) = Inr (int (length d))"
proof -
  note r = optimize_file_smaller [OF assms, of verbose]
  show ?thesis
    unfolding r by (simp add: getsize_def)
qed

theorem replace_when_smaller_witness:
  "endswith ''docs/a.pdf'' ''.pdf''
   \<and> files sample_world ''docs/a.pdf'' = Some ''0123456789''
   \<and> starts (tool (sample_job (tool_exits 0 (Some ''01234''))))
   \<and> exit_status (tool (sample_job (tool_exits 0 (Some ''01234'')))) = Some 0
   \<and> written (tool (sample_job (tool_exits 0 (Some ''01234'')))) = Some ''01234''
   \<and> length ''01234'' < length ''0123456789''
   \<and> output_path sample_paths (uuid_hex (sample_job (tool_exits 0 (Some ''01234''))))
        ''docs/a.pdf'' \<noteq> ''docs/a.pdf''
   \<and> fst (optimize_file sample_paths (sample_job (tool_exits 0 (Some ''01234'')))
          ''docs/a.pdf'' True sample_world) = Inr (Some (10, 5))
   \<and> files (snd (optimize_file sample_paths (sample_job (tool_exits 0 (Some ''01234'')))
          ''docs/a.pdf'' True sample_world)) ''docs/a.pdf'' = Some ''01234''"
proof -
  have h1: "endswith ''docs/a.pdf'' ''.pdf''" by (simp add: endswith_def)
  have h2: "files sample_world ''docs/a.pdf'' = Some ''0123456789''"
    by (simp add: sample_world_def)
  have h3: "starts (tool (sample_job (tool_exits 0 (Some ''01234''))))"
    by (simp add: sample_job_def tool_exits_def)
  have h4: "exit_status (tool (sample_job (tool_exits 0 (Some ''01234'')))) = Some 0"
    by (simp add: sample_job_def tool_exits_def)
  have h5: "written (tool (sample_job (tool_exits 0 (Some ''01234'')))) = Some ''01234''"
    by (simp add: sample_job_def tool_exits_def)
  have h6: "length ''01234'' < length ''0123456789''" by simp
  have h7: "output_path sample_paths (uuid_hex (sample_job (tool_exits 0 (Some ''01234''))))
        ''docs/a.pdf'' \<noteq> ''docs/a.pdf''"
    by (simp add: output_path_def sample_paths_def sample_job_def sample_hex_def is_sep_def
        unique_filename_def)
  from replace_when_smaller [OF h1 h2 h3 h4 h5 h6 h7, of True]
  have "fst (optimize_file sample_paths (sample_job (tool_exits 0 (Some ''01234'')))
          ''docs/a.pdf'' True sample_world) = Inr (Some (10, 5))"
    and "files (snd (optimize_file sample_paths (sample_job (tool_exits 0 (Some ''01234'')))
          ''docs/a.pdf'' True sample_world)) ''docs/a.pdf'' = Some ''01234''"
    by simp_all
  with h1 h2 h3 h4 h5 h6 h7 show ?thesis by blast
qed

text \<open>
  Claim C2. When the compressor exits with status 0 and its output is not smaller than
  the source (equal size included), the optimizer removes the temporary file and returns
  no result. The source file keeps its bytes, the temporary path holds no file, and no
  path holds a file that held none before.
\<close>

theorem discard_when_not_smaller:
  assumes "endswith p ''.pdf''" and "files w p = Some c"
    and "starts (tool env)" and "exit_status (tool env) = Some 0"
    and "written (tool env) = Some d" and "length c \<le> length d"
    and "output_path os (uuid_hex env) p \<noteq> p"
  shows "optimize_file os env p verbose w =
     (Inr None,
      \<lparr>files = (files w)(output_path os (uuid_hex env) p := None),
       trace = trace w @
         [Stat p,
          Spawn (GS @ [dq] @ output_path os (uuid_hex env) p @ [dq] @ '' '' @ [dq] @ p @ [dq]),
          Print ([CHR 0x1B] @ ''[1K'' @ [CHR 0x0D] @ ''Optimizing '' @ basename os p @ ''...''),
          Wait 60,
          Stat (output_path os (uuid_hex env) p)]
         @ (if verbose then
              [Print ([CHR 0x1B] @ ''[1K'' @ [CHR 0x0D] @ basename os p
                      @ '': no optimization needed'' @ [CHR 0x0A])]
            else [])
         @ [Remove (output_path os (uuid_hex env) p)]\<rparr>)
   \<and> files (snd (optimize_file os env p verbose w)) p = Some c
   \<and> files (snd (optimize_file os env p verbose w)) (output_path os (uuid_hex env) p) = None
   \<and> dom (files (snd (optimize_file os env p verbose w))) \<subseteq> dom (files w)"
proof -
  note r = optimize_file_not_smaller [OF assms, of verbose]
  show ?thesis
    unfolding r using assms(2,7) by auto
qed

theorem discard_when_not_smaller_witness:
  "endswith ''docs/a.pdf'' ''.pdf''
   \<and> files sample_world ''docs/a.pdf'' = Some ''0123456789''
   \<and> starts (tool (sample_job (tool_exits 0 (Some ''0123456789''))))
   \<and> exit_status (tool (sample_job (tool_exits 0 (Some ''0123456789'')))) = Some 0
   \<and> written (tool (sample_job (tool_exits 0 (Some ''0123456789'')))) = Some ''0123456789''
   \<and> length ''0123456789'' \<le> length ''0123456789''
   \<and> output_path sample_paths (uuid_hex (sample_job (tool_exits 0 (Some ''0123456789''))))
        ''docs/a.pdf'' \<noteq> ''docs/a.pdf''
   \<and> fst (optimize_file sample_paths (sample_job (tool_exits 0 (Some ''0123456789'')))
          ''docs/a.pdf'' True sample_world) = Inr None
   \<and> files (snd (optimize_file sample_paths (sample_job (tool_exits 0 (Some ''0123456789'')))
          ''docs/a.pdf'' True sample_world)) = files sample_world"
proof -
  have h1: "endswith ''docs/a.pdf'' ''.pdf''" by (simp add: endswith_def)
  have h2: "files sample_world ''docs/a.pdf'' = Some ''0123456789''"
    by (simp add: sample_world_def)
  have h3: "starts (tool (sample_job (tool_exits 0 (Some ''0123456789''))))"
    by (simp add: sample_job_def tool_exits_def)
  have h4: "exit_status (tool (sample_job (tool_exits 0 (Some ''0123456789'')))) = Some 0"
    by (simp add: sample_job_def tool_exits_def)
  have h5: "written (tool (sample_job (tool_exits 0 (Some ''0123456789'')))) = Some ''0123456789''"
    by (simp add: sample_job_def tool_exits_def)
  have h6: "length ''0123456789'' \<le> length ''0123456789''" by simp
  have h7: "output_path sample_paths (uuid_hex (sample_job (tool_exits 0 (Some ''0123456789''))))
        ''docs/a.pdf'' \<noteq> ''docs/a.pdf''"
    by (simp add: output_path_def sample_paths_def sample_job_def sample_hex_def is_sep_def
        unique_filename_def)
  have fresh: "files sample_world (output_path sample_paths
        (uuid_hex (sample_job (tool_exits 0 (Some ''0123456789'')))) ''docs/a.pdf'') = None"
    by (simp add: output_path_def sample_paths_def sample_job_def sample_hex_def is_sep_def
        unique_filename_def sample_world_def)
  from discard_when_not_smaller [OF h1 h2 h3 h4 h5 h6 h7, of True] fresh
  have "fst (optimize_file sample_paths (sample_job (tool_exits 0 (Some ''0123456789'')))
          ''docs/a.pdf'' True sample_world) = Inr None"
    and "files (snd (optimize_file sample_paths (sample_job (tool_exits 0 (Some ''0123456789'')))
          ''docs/a.pdf'' True sample_world)) = files sample_world"
    by (simp_all add: fun_upd_idem)
  with h1 h2 h3 h4 h5 h6 h7 show ?thesis by blast
qed

subsection \<open>Failed and timed-out jobs\<close>

text \<open>
  Claim C3 asks that a job whose compressor fails leaves no temporary file behind. The
  optimizer returns at once when the return code is not 0: the temporary file is removed
  only on the path where the output is not smaller. Here the compressor has written
  seven bytes to the temporary path and then exits with status 1 (or is still running
  after the wait): the job returns no result, and the temporary file, whose name starts
  with \<open>temp_\<close>, is still there.
\<close>

theorem failed_job_leaves_temp_file:
  "fst (optimize_file sample_paths (sample_job (tool_exits 1 (Some ''partial'')))
          ''docs/a.pdf'' False sample_world) = Inr None
   \<and> files (snd (optimize_file sample_paths (sample_job (tool_exits 1 (Some ''partial'')))
          ''docs/a.pdf'' False sample_world)) sample_temp = Some ''partial''
   \<and> fst (optimize_file sample_paths (sample_job (tool_hangs (Some ''partial'')))
          ''docs/a.pdf'' False sample_world) = Inr None
   \<and> files (snd (optimize_file sample_paths (sample_job (tool_hangs (Some ''partial'')))
          ''docs/a.pdf'' False sample_world)) sample_temp = Some ''partial''
   \<and> files sample_world sample_temp = None
   \<and> sample_temp = output_path sample_paths sample_hex ''docs/a.pdf''
   \<and> startswith (basename sample_paths sample_temp) ''temp_''"
proof -
  have h1: "endswith ''docs/a.pdf'' ''.pdf''" by (simp add: endswith_def)
  have h2: "files sample_world ''docs/a.pdf'' = Some ''0123456789''"
    by (simp add: sample_world_def)
  have out: "output_path sample_paths sample_hex ''docs/a.pdf'' = sample_temp"
    by (simp add: output_path_def sample_paths_def sample_hex_def is_sep_def
        unique_filename_def sample_temp_def)
  have a: "optimize_file sample_paths (sample_job (tool_exits 1 (Some ''partial'')))
          ''docs/a.pdf'' False sample_world =
        (Inr None, \<lparr>files = (files sample_world)(sample_temp := Some ''partial''),
           trace = trace sample_world @
             [Stat ''docs/a.pdf'',
              Spawn (GS @ [dq] @ sample_temp @ [dq] @ '' '' @ [dq] @ ''docs/a.pdf'' @ [dq]),
              Print ([CHR 0x1B] @ ''[1K'' @ [CHR 0x0D] @ ''Optimizing ''
                     @ basename sample_paths ''docs/a.pdf'' @ ''...''),
              Wait 60]\<rparr>)"
    using optimize_file_failed [OF h1 h2, of "sample_job (tool_exits 1 (Some ''partial''))"
        sample_paths False]
    by (simp add: sample_job_def tool_exits_def out)
  have b: "optimize_file sample_paths (sample_job (tool_hangs (Some ''partial'')))
          ''docs/a.pdf'' False sample_world =
        (Inr None, \<lparr>files = (files sample_world)(sample_temp := Some ''partial''),
           trace = trace sample_world @
             [Stat ''docs/a.pdf'',
              Spawn (GS @ [dq] @ sample_temp @ [dq] @ '' '' @ [dq] @ ''docs/a.pdf'' @ [dq]),
              Print ([CHR 0x1B] @ ''[1K'' @ [CHR 0x0D] @ ''Optimizing ''
                     @ basename sample_paths ''docs/a.pdf'' @ ''...''),
              Wait 60, Terminate]\<rparr>)"
    using optimize_file_failed [OF h1 h2, of "sample_job (tool_hangs (Some ''partial''))"
        sample_paths False]
    by (simp add: sample_job_def tool_hangs_def out)
  have c: "files sample_world sample_temp = None"
    by (simp add: sample_world_def sample_temp_def)
  have d: "startswith (basename sample_paths sample_temp) ''temp_''"
    by (simp add: startswith_def sample_paths_def sample_temp_def is_sep_def)
  show ?thesis
    unfolding a b using c d out by simp
qed

text \<open>
  Claim C6. When the compressor has not exited within the wait of 60 seconds, the
  process is terminated, the job returns no result, and the aggregation passes over it:
  the totals are those of the other jobs. A job on another file, with another temporary
  path, returns what it would have returned without the timed-out job.
\<close>

theorem timed_out_job_is_absent:
  assumes "endswith p ''.pdf''" and "files w p = Some c"
    and "starts (tool env)" and "exit_status (tool env) = None"
  shows "fst (optimize_file os env p verbose w) = Inr None
   \<and> trace (snd (optimize_file os env p verbose w)) = trace w @
        [Stat p,
         Spawn (GS @ [dq] @ output_path os (uuid_hex env) p @ [dq] @ '' '' @ [dq] @ p @ [dq]),
         Print ([CHR 0x1B] @ ''[1K'' @ [CHR 0x0D] @ ''Optimizing '' @ basename os p @ ''...''),
         Wait 60,
         Terminate]
   \<and> collect (fs1 @ fst (optimize_file os env p verbose w) # fs2) totals
       = collect (fs1 @ fs2) totals
   \<and> (output_path os (uuid_hex env) p \<noteq> q
        \<and> output_path os (uuid_hex env) p \<noteq> output_path os (uuid_hex env') q
      \<longrightarrow> fst (optimize_file os env' q verbose' (snd (optimize_file os env p verbose w)))
          = fst (optimize_file os env' q verbose' w))"
proof -
  from assms(4) have ne: "exit_status (tool env) \<noteq> Some 0" by simp
  note r = optimize_file_failed [OF assms(1,2,3) ne, of os verbose]
  have frame: "fst (optimize_file os env' q verbose' (snd (optimize_file os env p verbose w)))
          = fst (optimize_file os env' q verbose' w)"
    if "output_path os (uuid_hex env) p \<noteq> q"
      and "output_path os (uuid_hex env) p \<noteq> output_path os (uuid_hex env') q"
    using that unfolding r
    by (intro optimize_file_result_frame) (simp_all split: option.splits)
  show ?thesis
    using frame by (simp add: r assms(4) collect_skip_absent)
qed

theorem timed_out_job_is_absent_witness:
  "endswith ''docs/a.pdf'' ''.pdf''
   \<and> files sample_world ''docs/a.pdf'' = Some ''0123456789''
   \<and> starts (tool (sample_job (tool_hangs None)))
   \<and> exit_status (tool (sample_job (tool_hangs None))) = None
   \<and> fst (optimize_file sample_paths (sample_job (tool_hangs None)) ''docs/a.pdf'' False
        sample_world) = Inr None
   \<and> collect ([Inr (Some (10, 5))] @ fst (optimize_file sample_paths
        (sample_job (tool_hangs None)) ''docs/a.pdf'' False sample_world) # [Inr (Some (7, 3))])
        (0, 0) = Inr (17, 8)"
proof -
  have h1: "endswith ''docs/a.pdf'' ''.pdf''" by (simp add: endswith_def)
  have h2: "files sample_world ''docs/a.pdf'' = Some ''0123456789''"
    by (simp add: sample_world_def)
  have h3: "starts (tool (sample_job (tool_hangs None)))"
    by (simp add: sample_job_def tool_hangs_def)
  have h4: "exit_status (tool (sample_job (tool_hangs None))) = None"
    by (simp add: sample_job_def tool_hangs_def)
  from timed_out_job_is_absent [OF h1 h2 h3 h4, of sample_paths False
      "[Inr (Some (10, 5))]" "[Inr (Some (7, 3))]" "(0, 0)"]
  have "fst (optimize_file sample_paths (sample_job (tool_hangs None)) ''docs/a.pdf'' False
        sample_world) = Inr None"
    and "collect ([Inr (Some (10, 5))] @ fst (optimize_file sample_paths
        (sample_job (tool_hangs None)) ''docs/a.pdf'' False sample_world) # [Inr (Some (7, 3))])
        (0, 0) = Inr (17, 8)"
    by simp_all
  with h1 h2 h3 h4 show ?thesis by blast
qed

subsection \<open>Paths that are not PDFs\<close>

text \<open>
  Claim C9. On a path that does not end in \<open>.pdf\<close> (upper case does not count) the
  optimizer exits with the message \<open>Not a PDF file.\<close> before it does anything else:
  the file system is as it was and nothing has been started or printed. The program
  stops there, with a status that is not 0, whatever arguments follow.
\<close>

theorem non_pdf_path_is_fatal:
  assumes "\<not> suffix ''.pdf'' p"
  shows "optimize_file os env p verbose w = (Inl (SystemExit ''Not a PDF file.''), w)
   \<and> (p \<noteq> ''.'' \<and> \<not> cli_isdir c p \<and> isfile p w \<longrightarrow>
        main_loop c v (p # rest) w = (Inl (SystemExit ''Not a PDF file.''), w))
   \<and> (\<not> suffix ''.pdf'' (cli_getcwd c) \<longrightarrow>
        main_loop c v (''.'' # rest) w = (Inl (SystemExit ''Not a PDF file.''), w))
   \<and> exit_code (Inl (SystemExit ''Not a PDF file.'')) \<noteq> 0
   \<and> stderr_text (Inl (SystemExit ''Not a PDF file.'')) = Some ''Not a PDF file.''"
proof -
  have stop: "optimize_file os' env' p' verbose' w = (Inl (SystemExit ''Not a PDF file.''), w)"
    if "\<not> suffix ''.pdf'' p'" for os' env' p' verbose'
    using that by (simp add: optimize_file_def endswith_iff_suffix)
  show ?thesis
    using assms by (simp add: stop exit_code_def stderr_text_def)
qed

theorem non_pdf_path_is_fatal_witness:
  "\<not> suffix ''.pdf'' ''docs/a.PDF''
   \<and> optimize_file sample_paths (sample_job (tool_exits 0 (Some ''01234''))) ''docs/a.PDF'' True
        \<lparr>files = [''docs/a.PDF'' \<mapsto> ''0123456789''], trace = []\<rparr>
       = (Inl (SystemExit ''Not a PDF file.''),
          \<lparr>files = [''docs/a.PDF'' \<mapsto> ''0123456789''], trace = []\<rparr>)
   \<and> main_loop sample_cli False [''docs/a.PDF'', ''docs/'']
        \<lparr>files = [''docs/a.PDF'' \<mapsto> ''0123456789''], trace = []\<rparr>
       = (Inl (SystemExit ''Not a PDF file.''),
          \<lparr>files = [''docs/a.PDF'' \<mapsto> ''0123456789''], trace = []\<rparr>)"
proof -
  have h: "\<not> suffix ''.pdf'' ''docs/a.PDF''"
    by (simp add: endswith_iff_suffix [symmetric] endswith_def)
  have g: "''docs/a.PDF'' \<noteq> ''.'' \<and> \<not> cli_isdir sample_cli ''docs/a.PDF''
      \<and> isfile ''docs/a.PDF'' \<lparr>files = [''docs/a.PDF'' \<mapsto> ''0123456789''], trace = []\<rparr>"
    by (simp add: sample_cli_def isfile_def)
  from non_pdf_path_is_fatal [OF h, where os = sample_paths
      and env = "sample_job (tool_exits 0 (Some ''01234''))" and verbose = True
      and w = "\<lparr>files = [''docs/a.PDF'' \<mapsto> ''0123456789''], trace = []\<rparr>"
      and c = sample_cli and v = False and rest = "[''docs/'']"] g h
  show ?thesis by blast
qed

subsection \<open>The batch driver\<close>

lemma submit_all_filter:
  "submit_all os envs d verbose entries w =
     run_jobs os envs verbose
       (map (join os d)
          (filter (\<lambda>file. suffix ''.pdf'' file \<and> \<not> prefix ''temp_'' file) entries)) w"
  by (induction entries arbitrary: w)
     (auto simp add: startswith_iff_prefix endswith_iff_suffix split: prod.splits)

lemma unique_filename_prefix: "prefix pre (unique_filename ext pre hex)"
  by (simp add: unique_filename_def)

lemma unique_filename_suffix: "suffix (''.'' @ ext) (unique_filename ext pre hex)"
  unfolding unique_filename_def suffix_def
  by (rule exI [of _ "pre @ '' '' @ hex @ '' ''"]) simp

lemma collect_all_absent:
  assumes "\<forall>f\<in>set fs. f = Inr None"
  shows "collect fs totals = Inr totals"
  using assms by (induction fs) auto

lemma summary_line_zero: "summary_line 0 tf = Inl ZeroDivisionError"
  by (simp add: summary_line_def true_div_def Let_def)

lemma optimize_folder_totals:
  fixes order :: "future list \<Rightarrow> future list"
  assumes "submit_all os envs d verbose (ls d) (log (ListDir d) w) = (map Inr rs, w1)"
    and "mset (order (map Inr rs)) = mset (map Inr rs)"
  shows "optimize_folder os ls envs order d verbose w =
     (case summary_line (\<Sum>r\<leftarrow>rs. case r of None \<Rightarrow> 0 | Some x \<Rightarrow> fst x)
                        (\<Sum>r\<leftarrow>rs. case r of None \<Rightarrow> 0 | Some x \<Rightarrow> snd x) of
        Inl e \<Rightarrow> (Inl e, clear_print ''Final compression stats:'' True w1)
      | Inr line \<Rightarrow>
          (Inr (), clear_print line True (clear_print ''Final compression stats:'' True w1)))"
  by (simp add: optimize_folder_def assms(1) collect_permuted [OF assms(2)] Let_def)

text \<open>The scenario of three PDFs, evaluated.\<close>

lemma scenario_summary:
  "summary_line 300000 190000 = Inr ''300.00 KB -> 190.00 KB, Compression ratio = 36.67%''"
  by (simp add: summary_line_def true_div_def fmt_eval Let_def floor_rat_numeral)

text \<open>
  Totals of 800 and 203 bytes: the exact ratio 74.625 is a tie, the float is above it.
\<close>

lemma tie_summary:
  "summary_line 800 203 = Inr ''800.00 bytes -> 203.00 bytes, Compression ratio = 74.63%''"
  by (simp add: summary_line_def true_div_def fmt_eval)

lemma round_half_even_between:
  assumes "of_int n - 1 / 2 < x" and "x < of_int n + 1 / 2"
  shows "round_half_even x = n"
proof -
  have lo: "n - 1 \<le> \<lfloor>x\<rfloor>" using assms(1) by (simp add: le_floor_iff) 
  have hi: "\<lfloor>x\<rfloor> \<le> n" using assms(2) by (simp add: floor_le_iff)
  from lo hi consider "\<lfloor>x\<rfloor> = n - 1" | "\<lfloor>x\<rfloor> = n" by linarith
  then show ?thesis
  proof cases
    case 1
    with assms(1) have "1 / 2 < x - of_int \<lfloor>x\<rfloor>" by simp
    with 1 show ?thesis by (simp add: round_half_even_def Let_def)
  next
    case 2
    with assms(2) have "x - of_int \<lfloor>x\<rfloor> < 1 / 2" by simp
    with 2 show ?thesis by (simp add: round_half_even_def Let_def)
  qed
qed

lemma fmt2_near_ratio:
  assumes "\<bar>x - 100 * (1 - 190000 / 300000)\<bar> < 1 / 1000"
  shows "fmt2 x = ''36.67''"
proof -
  have e: "100 * (1 - 190000 / 300000) = (110 / 3 :: rat)" by simp
  from assms have b: "110 / 3 - 1 / 1000 < x" "x < 110 / 3 + 1 / 1000"
    unfolding e by linarith+
  then have pos: "0 < x" by simp
  from b have "of_int 3667 - 1 / 2 < \<bar>x\<bar> * 100" "\<bar>x\<bar> * 100 < of_int 3667 + 1 / 2"
    using pos by simp_all
  then have "round_half_even (\<bar>x\<bar> * 100) = 3667" by (rule round_half_even_between)
  with pos show ?thesis
    by (simp add: fmt2_def show_nat.simps digit_def)
qed

lemmas scenario_defs = scenario_world_def scenario_listdir_def scenario_envs_def
  sample_paths_def tool_exits_def is_sep_def

lemma scenario_futures:
  "fst (submit_all sample_paths scenario_envs ''docs/'' False (scenario_listdir ''docs/'')
          (log (ListDir ''docs/'') scenario_world))
   = [Inr (Some (100000, 40000)), Inr (Some (200000, 150000)), Inr None]"
  by (simp add: scenario_defs optimize_file_def prims Let_def startswith_def endswith_def
      output_path_def unique_filename_def)

lemma scenario_submit:
  "\<exists>w1. submit_all sample_paths scenario_envs ''docs/'' False (scenario_listdir ''docs/'')
          (log (ListDir ''docs/'') scenario_world)
   = (map Inr [Some (100000, 40000), Some (200000, 150000), None], w1)"
proof -
  obtain fs w1 where s: "submit_all sample_paths scenario_envs ''docs/'' False
      (scenario_listdir ''docs/'') (log (ListDir ''docs/'') scenario_world) = (fs, w1)"
    by (cases "submit_all sample_paths scenario_envs ''docs/'' False
      (scenario_listdir ''docs/'') (log (ListDir ''docs/'') scenario_world)")
  with scenario_futures
  have "fs = [Inr (Some (100000, 40000)), Inr (Some (200000, 150000)), Inr None]"
    by simp
  with s show ?thesis by simp
qed

lemma scenario_run:
  "fst (optimize_folder sample_paths scenario_listdir scenario_envs rev ''docs/'' False
       scenario_world) = Inr ()
   \<and> last (trace (snd (optimize_folder sample_paths scenario_listdir scenario_envs rev ''docs/''
       False scenario_world)))
   = Print ([CHR 0x1B] @ ''[1K'' @ [CHR 0x0D]
            @ ''300.00 KB -> 190.00 KB, Compression ratio = 36.67%'' @ [CHR 0x0A])"
proof -
  from scenario_submit obtain w1 where
    s: "submit_all sample_paths scenario_envs ''docs/'' False (scenario_listdir ''docs/'')
          (log (ListDir ''docs/'') scenario_world)
        = (map Inr [Some (100000, 40000), Some (200000, 150000), None], w1)" by blast
  have p: "mset (rev (map Inr [Some (100000, 40000), Some (200000, 150000), None]))
      = mset (map Inr [Some (100000, 40000), Some (200000, 150000), None] :: future list)"
    by simp
  have t: "(\<Sum>r\<leftarrow>[Some (100000, 40000), Some (200000, 150000), None].
              case r of None \<Rightarrow> 0 | Some x \<Rightarrow> fst x) = (300000::int)"
    "(\<Sum>r\<leftarrow>[Some (100000, 40000), Some (200000, 150000), None].
              case r of None \<Rightarrow> 0 | Some x \<Rightarrow> snd x) = (190000::int)"
    by simp_all
  note r = optimize_folder_totals [where ls = scenario_listdir and d = "''docs/''"
      and order = rev, OF s p]
  show ?thesis
    unfolding r t scenario_summary by (simp add: clear_print_def log_def)
qed

subsection \<open>Candidates, totals and the summary\<close>

text \<open>
  Claim C7. The jobs the batch driver submits are those of the entries of the listing
  whose name ends in \<open>.pdf\<close> and does not start with \<open>temp_\<close>, and of no other entry.
  A temporary name of the single-file optimizer starts with \<open>temp_\<close> (and ends in
  \<open>.pdf\<close>), whatever the random token: it is never among the candidates, and a listing
  with such a name in it gives the same jobs as the listing without it.
\<close>

theorem candidates_exclude_temp_names:
  "submit_all os envs d verbose entries w =
     run_jobs os envs verbose
       (map (join os d)
          (filter (\<lambda>file. suffix ''.pdf'' file \<and> \<not> prefix ''temp_'' file) entries)) w
   \<and> output_path os hex p = join os (dirname os p) (unique_filename ''pdf'' ''temp_'' hex)
   \<and> unique_filename ''pdf'' ''temp_'' hex = ''temp_'' @ ('' '' @ hex @ '' '') @ ''.pdf''
   \<and> prefix ''temp_'' (unique_filename ''pdf'' ''temp_'' hex)
   \<and> suffix ''.pdf'' (unique_filename ''pdf'' ''temp_'' hex)
   \<and> unique_filename ''pdf'' ''temp_'' hex
       \<notin> set (filter (\<lambda>file. suffix ''.pdf'' file \<and> \<not> prefix ''temp_'' file) entries)
   \<and> submit_all os envs d verbose (unique_filename ''pdf'' ''temp_'' hex # entries) w
       = submit_all os envs d verbose entries w"
proof -
  have a: "prefix ''temp_'' (unique_filename ''pdf'' ''temp_'' hex)"
    by (rule unique_filename_prefix)
  have b: "suffix ''.pdf'' (unique_filename ''pdf'' ''temp_'' hex)"
    using unique_filename_suffix [of "''pdf''" "''temp_''" hex] by simp
  have c: "unique_filename ''pdf'' ''temp_'' hex = ''temp_'' @ ('' '' @ hex @ '' '') @ ''.pdf''"
    by (simp add: unique_filename_def)
  show ?thesis
    using a b c by (simp add: submit_all_filter output_path_def)
qed

theorem candidates_exclude_temp_names_witness:
  "filter (\<lambda>file. suffix ''.pdf'' file \<and> \<not> prefix ''temp_'' file) (stale_listdir ''docs/'')
     = [''a.pdf'']
   \<and> submit_all sample_paths (\<lambda>p. sample_job (tool_exits 0 (Some ''01234''))) ''docs/'' False
        (stale_listdir ''docs/'') sample_world
       = run_jobs sample_paths (\<lambda>p. sample_job (tool_exits 0 (Some ''01234''))) False
           [''docs/a.pdf''] sample_world"
proof -
  have f: "filter (\<lambda>file. suffix ''.pdf'' file \<and> \<not> prefix ''temp_'' file)
      (stale_listdir ''docs/'') = [''a.pdf'']"
    by (simp add: stale_listdir_def endswith_iff_suffix [symmetric]
        startswith_iff_prefix [symmetric] endswith_def startswith_def)
  have j: "join sample_paths ''docs/'' ''a.pdf'' = ''docs/a.pdf''"
    by (simp add: sample_paths_def is_sep_def)
  note t = candidates_exclude_temp_names [where os = sample_paths
      and envs = "\<lambda>p. sample_job (tool_exits 0 (Some ''01234''))" and d = "''docs/''"
      and verbose = False and entries = "stale_listdir ''docs/''" and w = sample_world,
      THEN conjunct1]
  show ?thesis
    unfolding t f by (simp add: j)
qed

text \<open>
  Claim C4. Whatever the order in which the results come back, the two totals are the
  sums of the initial and final sizes over the present results; an absent result adds
  0 to both. The summary is computed from these totals. For three PDFs of 100000,
  200000 and 50000 bytes that the compressor brings to 40000, 150000 and 50000 bytes,
  the results are (100000, 40000), (200000, 150000) and none, the totals are 300000 and
  190000, and the summary reports a compression ratio of 36.67%. Every value within
  a thousandth of the exact ratio is printed as 36.67, so the rounding of the float
  arithmetic does not show.
\<close>

theorem totals_sum_present_results:
  fixes order :: "future list \<Rightarrow> future list"
  shows "(mset fs = mset (map Inr rs) \<longrightarrow>
      collect fs (0, 0) =
        Inr (\<Sum>r\<leftarrow>rs. case r of None \<Rightarrow> 0 | Some x \<Rightarrow> fst x,
             \<Sum>r\<leftarrow>rs. case r of None \<Rightarrow> 0 | Some x \<Rightarrow> snd x))
   \<and> (submit_all os envs d verbose (ls d) (log (ListDir d) w) = (map Inr rs, w1)
        \<and> mset (order (map Inr rs)) = mset (map Inr rs) \<longrightarrow>
      optimize_folder os ls envs order d verbose w =
        (case summary_line (\<Sum>r\<leftarrow>rs. case r of None \<Rightarrow> 0 | Some x \<Rightarrow> fst x)
                           (\<Sum>r\<leftarrow>rs. case r of None \<Rightarrow> 0 | Some x \<Rightarrow> snd x) of
           Inl e \<Rightarrow> (Inl e, clear_print ''Final compression stats:'' True w1)
         | Inr line \<Rightarrow>
             (Inr (), clear_print line True (clear_print ''Final compression stats:'' True w1))))
   \<and> fst (submit_all sample_paths scenario_envs ''docs/'' False (scenario_listdir ''docs/'')
          (log (ListDir ''docs/'') scenario_world))
       = [Inr (Some (100000, 40000)), Inr (Some (200000, 150000)), Inr None]
   \<and> collect [Inr (Some (100000, 40000)), Inr (Some (200000, 150000)), Inr None] (0, 0)
       = Inr (300000, 190000)
   \<and> summary_line 300000 190000
       = Inr ''300.00 KB -> 190.00 KB, Compression ratio = 36.67%''
   \<and> (\<bar>x - 100 * (1 - 190000 / 300000)\<bar> < 1 / 1000 \<longrightarrow> fmt2 x = ''36.67'')
   \<and> last (trace (snd (optimize_folder sample_paths scenario_listdir scenario_envs rev ''docs/''
         False scenario_world)))
       = Print ([CHR 0x1B] @ ''[1K'' @ [CHR 0x0D]
                @ ''300.00 KB -> 190.00 KB, Compression ratio = 36.67%'' @ [CHR 0x0A])"
proof (intro conjI impI)
  assume "mset fs = mset (map Inr rs)"
  then show "collect fs (0, 0) =
        Inr (\<Sum>r\<leftarrow>rs. case r of None \<Rightarrow> 0 | Some x \<Rightarrow> fst x,
             \<Sum>r\<leftarrow>rs. case r of None \<Rightarrow> 0 | Some x \<Rightarrow> snd x)"
    by (rule collect_permuted)
next
  assume "submit_all os envs d verbose (ls d) (log (ListDir d) w) = (map Inr rs, w1)
        \<and> mset (order (map Inr rs)) = mset (map Inr rs)"
  then show "optimize_folder os ls envs order d verbose w =
        (case summary_line (\<Sum>r\<leftarrow>rs. case r of None \<Rightarrow> 0 | Some x \<Rightarrow> fst x)
                           (\<Sum>r\<leftarrow>rs. case r of None \<Rightarrow> 0 | Some x \<Rightarrow> snd x) of
           Inl e \<Rightarrow> (Inl e, clear_print ''Final compression stats:'' True w1)
         | Inr line \<Rightarrow>
             (Inr (), clear_print line True (clear_print ''Final compression stats:'' True w1)))"
    using optimize_folder_totals [of os envs d verbose ls w rs w1 order] by blast
next
  show "fst (submit_all sample_paths scenario_envs ''docs/'' False (scenario_listdir ''docs/'')
          (log (ListDir ''docs/'') scenario_world))
       = [Inr (Some (100000, 40000)), Inr (Some (200000, 150000)), Inr None]"
    by (rule scenario_futures)
next
  show "collect [Inr (Some (100000, 40000)), Inr (Some (200000, 150000)), Inr None] (0, 0)
       = Inr (300000, 190000)"
    by simp
next
  show "summary_line 300000 190000
       = Inr ''300.00 KB -> 190.00 KB, Compression ratio = 36.67%''"
    by (rule scenario_summary)
next
  assume "\<bar>x - 100 * (1 - 190000 / 300000)\<bar> < 1 / 1000"
  then show "fmt2 x = ''36.67''"
    by (rule fmt2_near_ratio)
next
  show "last (trace (snd (optimize_folder sample_paths scenario_listdir scenario_envs rev ''docs/''
         False scenario_world)))
       = Print ([CHR 0x1B] @ ''[1K'' @ [CHR 0x0D]
                @ ''300.00 KB -> 190.00 KB, Compression ratio = 36.67%'' @ [CHR 0x0A])"
    using scenario_run by blast
qed

theorem totals_sum_present_results_witness:
  "mset [Inr None, Inr (Some (200000, 150000)), Inr (Some (100000, 40000))]
     = mset (map Inr [Some (100000, 40000), Some (200000, 150000), None] :: future list)
   \<and> collect [Inr None, Inr (Some (200000, 150000)), Inr (Some (100000, 40000))] (0, 0)
       = Inr (300000, 190000)"
proof -
  have h: "mset [Inr None, Inr (Some (200000, 150000)), Inr (Some (100000, 40000))]
     = mset (map Inr [Some (100000, 40000), Some (200000, 150000), None] :: future list)"
    by simp
  note t = totals_sum_present_results [where fs = "[Inr None, Inr (Some (200000, 150000)),
      Inr (Some (100000, 40000))]" and rs = "[Some (100000, 40000), Some (200000, 150000), None]",
      THEN conjunct1, THEN mp, OF h]
  have "collect [Inr None, Inr (Some (200000, 150000)), Inr (Some (100000, 40000))] (0, 0)
       = Inr (300000, 190000)"
    unfolding t by simp
  with h show ?thesis by blast
qed

text \<open>
  Claim C5. When no job returns a present result, both totals are 0 and the division in
  the summary raises \<open>ZeroDivisionError\<close>: the batch driver has printed the heading
  \<open>Final compression stats:\<close> and fails before it prints the summary line.
\<close>

theorem no_present_result_divides_by_zero:
  assumes "submit_all os envs d verbose (ls d) (log (ListDir d) w) = (fs, w1)"
    and "\<forall>f\<in>set fs. f = Inr None"
    and "mset (order fs) = mset fs"
  shows "collect (order fs) (0, 0) = Inr (0, 0)
   \<and> true_div 0 0 = Inl ZeroDivisionError
   \<and> optimize_folder os ls envs order d verbose w
       = (Inl ZeroDivisionError, clear_print ''Final compression stats:'' True w1)"
proof -
  from assms(3) have "set (order fs) = set fs" by (metis set_mset_mset)
  with assms(2) have "\<forall>f\<in>set (order fs). f = Inr None" by simp
  then have c: "collect (order fs) (0, 0) = Inr (0, 0)" by (rule collect_all_absent)
  show ?thesis
    by (simp add: c optimize_folder_def assms(1) summary_line_zero true_div_def)
qed

theorem no_present_result_divides_by_zero_witness:
  "submit_all sample_paths (\<lambda>p. sample_job (tool_exits 0 (Some ''0123456789''))) ''docs/'' False
      (stale_listdir ''docs/'') (log (ListDir ''docs/'') sample_world)
     = ([Inr None],
        snd (submit_all sample_paths (\<lambda>p. sample_job (tool_exits 0 (Some ''0123456789'')))
               ''docs/'' False (stale_listdir ''docs/'') (log (ListDir ''docs/'') sample_world)))
   \<and> set [Inr None :: future] = {Inr None}
   \<and> mset (rev [Inr None :: future]) = mset [Inr None]
   \<and> fst (optimize_folder sample_paths stale_listdir
            (\<lambda>p. sample_job (tool_exits 0 (Some ''0123456789''))) rev ''docs/'' False sample_world)
       = Inl ZeroDivisionError"
proof -
  have f: "fst (submit_all sample_paths (\<lambda>p. sample_job (tool_exits 0 (Some ''0123456789'')))
      ''docs/'' False (stale_listdir ''docs/'') (log (ListDir ''docs/'') sample_world))
      = [Inr None]"
    by (simp add: stale_listdir_def sample_world_def sample_job_def sample_hex_def
        sample_paths_def tool_exits_def is_sep_def optimize_file_def prims Let_def
        startswith_def endswith_def output_path_def unique_filename_def)
  then have h1: "submit_all sample_paths (\<lambda>p. sample_job (tool_exits 0 (Some ''0123456789'')))
      ''docs/'' False (stale_listdir ''docs/'') (log (ListDir ''docs/'') sample_world)
     = ([Inr None],
        snd (submit_all sample_paths (\<lambda>p. sample_job (tool_exits 0 (Some ''0123456789'')))
               ''docs/'' False (stale_listdir ''docs/'') (log (ListDir ''docs/'') sample_world)))"
    by (metis prod.collapse)
  have h2: "\<forall>f\<in>set [Inr None :: future]. f = Inr None" by simp
  have h3: "mset (rev [Inr None :: future]) = mset [Inr None]" by simp
  from no_present_result_divides_by_zero [where ls = stale_listdir and d = "''docs/''"
      and order = rev, OF h1 h2 h3]
  have "fst (optimize_folder sample_paths stale_listdir
            (\<lambda>p. sample_job (tool_exits 0 (Some ''0123456789''))) rev ''docs/'' False sample_world)
       = Inl ZeroDivisionError"
    by simp
  with h1 h3 show ?thesis by simp
qed

end
